theory Spec2Isabelle
  imports Complex_Main
begin

section \<open>Values exchanged with the platform\<close>

text \<open>
  A value produced by \<^verbatim>\<open>JSON.parse\<close> or \<^verbatim>\<open>response.json()\<close>. Numbers are the finite
  number values read as reals; an object is the list of its own properties, each key
  once, as the parser builds it.
\<close>

datatype json =
    JNull
  | JBool bool
  | JNum real
  | JStr string
  | JArr "json list"
  | JObj "(string \<times> json) list"

text \<open>A rejection or a thrown error: its \<^verbatim>\<open>name\<close> and its \<^verbatim>\<open>message\<close>.\<close>

datatype js_error = JsError (err_name: string) (err_message: string)

text \<open>
  One invocation of a callback handed to \<^verbatim>\<open>sendMessageStream\<close>, with its argument. A
  session is observed as the list of these invocations, in order; what a callback then
  does is the consumer's part, further down.
\<close>

datatype callback =
    OnThinkingChunk json
  | OnStep json
  | OnDone json
  | OnError json
  | OnAborted json

fun is_terminal :: "callback \<Rightarrow> bool" where
  "is_terminal (OnThinkingChunk d) = False"
| "is_terminal (OnStep d) = False"
| "is_terminal (OnDone d) = True"
| "is_terminal (OnError d) = True"
| "is_terminal (OnAborted d) = True"

section \<open>String primitives of the source language\<close>

text \<open>
  Text is a list of characters; a \<open>char\<close> stands for one character of the decoded
  response with code below 256. \<^verbatim>\<open>decoder.decode(value, {stream: true})\<close> is taken as
  given: each element of a read sequence below is the text one \<^verbatim>\<open>read()\<close> contributes.
\<close>

definition NL :: char where
  "NL = CHR 0x0A"

text \<open>\<^verbatim>\<open>s.split('\n')\<close>: the segments between newlines; never the empty array.\<close>

fun split_nl :: "string \<Rightarrow> string list" where
  "split_nl [] = [[]]"
| "split_nl (c # cs) =
     (if c = NL then [] # split_nl cs
      else (case split_nl cs of [] \<Rightarrow> [[c]] | l # ls \<Rightarrow> (c # l) # ls))"

text \<open>\<^verbatim>\<open>lines.pop()\<close>: the removed last element (\<open>None\<close> for \<^verbatim>\<open>undefined\<close>) and the rest.\<close>

definition pop :: "'a list \<Rightarrow> 'a option \<times> 'a list" where
  "pop xs = (if xs = [] then (None, []) else (Some (last xs), butlast xs))"

definition startsWith :: "string \<Rightarrow> string \<Rightarrow> bool" where
  "startsWith s p \<longleftrightarrow> take (length p) s = p"

text \<open>
  The characters \<^verbatim>\<open>trim()\<close> strips, among those with code below 256: tab, line feed,
  vertical tab, form feed, carriage return, space and no-break space.
\<close>

definition js_whitespace :: "char \<Rightarrow> bool" where
  "js_whitespace c \<longleftrightarrow>
     c \<in> set [CHR 0x09, CHR 0x0A, CHR 0x0B, CHR 0x0C, CHR 0x0D, CHR 0x20, CHR 0xA0]"

definition trim :: "string \<Rightarrow> string" where
  "trim s = rev (dropWhile js_whitespace (rev (dropWhile js_whitespace s)))"

text \<open>The decimal digits of a number, as a template literal renders \<^verbatim>\<open>response.status\<close>.\<close>

fun show_nat :: "nat \<Rightarrow> string" where
  "show_nat n =
     (if n < 10 then [''0123456789'' ! n]
      else show_nat (n div 10) @ [''0123456789'' ! (n mod 10)])"

declare show_nat.simps [simp del]

section \<open>The read loop of \<^verbatim>\<open>sendMessageStream\<close>\<close>

text \<open>
  The chain of \<^verbatim>\<open>if (eventType === ...)\<close> inside the \<^verbatim>\<open>try\<close> block. The first argument
  says whether the caller passed the optional \<^verbatim>\<open>onAborted\<close>.
\<close>

definition dispatch :: "bool \<Rightarrow> string \<Rightarrow> json \<Rightarrow> callback list" where
  "dispatch hasOnAborted eventType data =
     (if eventType = ''thinking_chunk'' then [OnThinkingChunk data]
      else if eventType = ''step'' then [OnStep data]
      else if eventType = ''done'' then [OnDone data]
      else if eventType = ''aborted'' then (if hasOnAborted then [OnAborted data] else [])
      else if eventType = ''error'' then [OnError data]
      else [])"

text \<open>
  The body of \<^verbatim>\<open>for (const line of lines)\<close>: the new event type and the callbacks
  invoked. \<open>parse\<close> is \<^verbatim>\<open>JSON.parse\<close>, with \<open>None\<close> where it throws; the \<^verbatim>\<open>catch\<close> only logs.
\<close>

definition process_line ::
  "(string \<Rightarrow> json option) \<Rightarrow> bool \<Rightarrow> string \<Rightarrow> string \<Rightarrow> string \<times> callback list" where
  "process_line parse hasOnAborted eventType line =
     (if startsWith line ''event: '' then (trim (drop 7 line), [])
      else if startsWith line ''data: '' then
        (case parse (drop 6 line) of
           None \<Rightarrow> (eventType, [])
         | Some data \<Rightarrow> (eventType, dispatch hasOnAborted eventType data))
      else (eventType, []))"

fun process_lines ::
  "(string \<Rightarrow> json option) \<Rightarrow> bool \<Rightarrow> string \<Rightarrow> string list \<Rightarrow> string \<times> callback list" where
  "process_lines parse hasOnAborted eventType [] = (eventType, [])"
| "process_lines parse hasOnAborted eventType (line # lines) =
     (let (eventType', cs) = process_line parse hasOnAborted eventType line;
          (eventType'', cs') = process_lines parse hasOnAborted eventType' lines
      in (eventType'', cs @ cs'))"

text \<open>The two variables that live across reads.\<close>

record reader_state =
  buffer :: string
  eventType :: string

definition initial_state :: reader_state where
  "initial_state = \<lparr>buffer = '''', eventType = ''message''\<rparr>"

text \<open>One iteration of \<^verbatim>\<open>while (true)\<close> after a read that was not \<^verbatim>\<open>done\<close>.\<close>

definition on_chunk ::
  "(string \<Rightarrow> json option) \<Rightarrow> bool \<Rightarrow> reader_state \<Rightarrow> string \<Rightarrow> reader_state \<times> callback list" where
  "on_chunk parse hasOnAborted st text =
     (let (popped, lines) = pop (split_nl (buffer st @ text));
          buffer' = (case popped of None \<Rightarrow> '''' | Some l \<Rightarrow> l);
          (eventType', cs) = process_lines parse hasOnAborted (eventType st) lines
      in (\<lparr>buffer = buffer', eventType = eventType'\<rparr>, cs))"

fun read_loop ::
  "(string \<Rightarrow> json option) \<Rightarrow> bool \<Rightarrow> reader_state \<Rightarrow> string list \<Rightarrow> reader_state \<times> callback list" where
  "read_loop parse hasOnAborted st [] = (st, [])"
| "read_loop parse hasOnAborted st (text # texts) =
     (let (st', cs) = on_chunk parse hasOnAborted st text;
          (st'', cs') = read_loop parse hasOnAborted st' texts
      in (st'', cs @ cs'))"

section \<open>The session: \<^verbatim>\<open>fetch(...).then(...).catch(...)\<close>\<close>

text \<open>
  The returned \<^verbatim>\<open>close\<close> calls \<^verbatim>\<open>controller.abort()\<close>; the code observes it as the pending
  fetch or read rejecting with an error named \<^verbatim>\<open>AbortError\<close>.

  What the response shows to the code: \<^verbatim>\<open>status\<close>, the outcome of \<^verbatim>\<open>response.json()\<close>
  (\<open>Inl\<close> when it rejects) and \<^verbatim>\<open>body\<close>, \<open>None\<close> for \<^verbatim>\<open>null\<close>. A body is the texts of
  its successive reads and how reading ends: \<open>None\<close> when the reader reports \<^verbatim>\<open>done\<close>,
  \<open>Some e\<close> when the read after them rejects with \<open>e\<close>.
\<close>

record response =
  status :: nat
  json_result :: "js_error + json"
  body :: "(string list \<times> js_error option) option"

text \<open>\<^verbatim>\<open>response.ok\<close>: the status is in the range 200 to 299.\<close>

definition ok :: "response \<Rightarrow> bool" where
  "ok r \<longleftrightarrow> 200 \<le> status r \<and> status r \<le> 299"

datatype fetch_outcome = Rejected js_error | Resolved response

text \<open>JavaScript truthiness of a parsed value.\<close>

fun truthy :: "json \<Rightarrow> bool" where
  "truthy JNull = False"
| "truthy (JBool b) = b"
| "truthy (JNum x) = (x \<noteq> 0)"
| "truthy (JStr s) = (s \<noteq> '''')"
| "truthy (JArr xs) = True"
| "truthy (JObj kvs) = True"

text \<open>
  \<^verbatim>\<open>errorData.detail\<close>: \<open>Inl ()\<close> when the access throws (on \<^verbatim>\<open>null\<close>), \<open>Inr None\<close> for
  \<^verbatim>\<open>undefined\<close>.
\<close>

fun get_detail :: "json \<Rightarrow> unit + json option" where
  "get_detail JNull = Inl ()"
| "get_detail (JObj kvs) = Inr (map_of kvs ''detail'')"
| "get_detail v = Inr None"

text \<open>
  The message of the error thrown on a response that is not \<^verbatim>\<open>ok\<close>. \<open>toMessage\<close> is
  the platform's conversion behind \<^verbatim>\<open>new Error(v)\<close> for a value \<open>v\<close> that is not a string.
\<close>

definition error_detail :: "(json \<Rightarrow> string) \<Rightarrow> response \<Rightarrow> string" where
  "error_detail toMessage r =
     (let errorDetail = ''HTTP error! status: '' @ show_nat (status r) in
      case json_result r of
        Inl e \<Rightarrow> errorDetail
      | Inr errorData \<Rightarrow>
          (case get_detail errorData of
             Inl u \<Rightarrow> errorDetail
           | Inr None \<Rightarrow> errorDetail
           | Inr (Some d) \<Rightarrow>
               if truthy d then (case d of JStr s \<Rightarrow> s | _ \<Rightarrow> toMessage d)
               else errorDetail))"

text \<open>
  The \<^verbatim>\<open>then\<close> handler: the callbacks it invokes and the error it ends with, if any.
\<close>

definition on_response ::
  "(string \<Rightarrow> json option) \<Rightarrow> (json \<Rightarrow> string) \<Rightarrow> bool \<Rightarrow> response \<Rightarrow>
     callback list \<times> js_error option" where
  "on_response parse toMessage hasOnAborted r =
     (if \<not> ok r then ([], Some (JsError ''Error'' (error_detail toMessage r)))
      else case body r of
        None \<Rightarrow> ([], Some (JsError ''Error'' ''Response body is null''))
      | Some (texts, ending) \<Rightarrow>
          (snd (read_loop parse hasOnAborted initial_state texts), ending))"

definition aborted_by_user :: json where
  "aborted_by_user =
     JObj [(''type'', JStr ''aborted''), (''role'', JStr ''assistant''),
           (''message'', JStr ''Connection aborted by user'')]"

definition error_event :: "string \<Rightarrow> json" where
  "error_event msg =
     JObj [(''type'', JStr ''error''), (''role'', JStr ''assistant''), (''message'', JStr msg)]"

text \<open>The \<^verbatim>\<open>catch\<close> handler.\<close>

definition on_catch :: "bool \<Rightarrow> js_error \<Rightarrow> callback list" where
  "on_catch hasOnAborted error =
     (if err_name error = ''AbortError'' then
        (if hasOnAborted then [OnAborted aborted_by_user] else [])
      else [OnError (error_event (err_message error))])"

definition sendMessageStream ::
  "(string \<Rightarrow> json option) \<Rightarrow> (json \<Rightarrow> string) \<Rightarrow> bool \<Rightarrow> fetch_outcome \<Rightarrow> callback list" where
  "sendMessageStream parse toMessage hasOnAborted outcome =
     (case outcome of
        Rejected error \<Rightarrow> on_catch hasOnAborted error
      | Resolved r \<Rightarrow>
          (let (cs, thrown) = on_response parse toMessage hasOnAborted r
           in cs @ (case thrown of None \<Rightarrow> [] | Some error \<Rightarrow> on_catch hasOnAborted error)))"

section \<open>Notions the properties of the session are stated with\<close>

text \<open>
  The event name in force after the lines \<open>preceding\<close>: what the last \<^verbatim>\<open>event:\<close> line among
  them set, or \<^verbatim>\<open>message\<close> when there is none.
\<close>

definition current_event_name :: "string list \<Rightarrow> string" where
  "current_event_name preceding =
     (case filter (\<lambda>l. startsWith l ''event: '') preceding of
        [] \<Rightarrow> ''message''
      | e # es \<Rightarrow> trim (drop 7 (last (e # es))))"

text \<open>The table of recognised event names.\<close>

definition callback_for :: "string \<Rightarrow> (json \<Rightarrow> callback) option" where
  "callback_for name =
     map_of [(''thinking_chunk'', OnThinkingChunk), (''step'', OnStep), (''done'', OnDone),
             (''aborted'', OnAborted), (''error'', OnError)] name"

fun is_OnAborted :: "callback \<Rightarrow> bool" where
  "is_OnAborted (OnAborted d) = True"
| "is_OnAborted c = False"

text \<open>No callback but the last is terminal: at most one terminal event, and nothing after it.\<close>

definition terminal_only_last :: "callback list \<Rightarrow> bool" where
  "terminal_only_last cs \<longleftrightarrow> list_all (\<lambda>c. \<not> is_terminal c) (butlast cs)"

text \<open>
  The callbacks a session invokes for the frames of its stream, and whether the session
  ends with the reader reporting \<^verbatim>\<open>done\<close>.
\<close>

definition frame_callbacks :: "(string \<Rightarrow> json option) \<Rightarrow> bool \<Rightarrow> fetch_outcome \<Rightarrow> callback list" where
  "frame_callbacks parse hasOnAborted outcome =
     (case outcome of
        Rejected error \<Rightarrow> []
      | Resolved r \<Rightarrow>
          (if ok r then
             (case body r of
                None \<Rightarrow> []
              | Some (texts, ending) \<Rightarrow> snd (read_loop parse hasOnAborted initial_state texts))
           else []))"

definition ends_normally :: "fetch_outcome \<Rightarrow> bool" where
  "ends_normally outcome \<longleftrightarrow>
     (case outcome of
        Rejected error \<Rightarrow> False
      | Resolved r \<Rightarrow> ok r \<and> (case body r of None \<Rightarrow> False | Some (texts, ending) \<Rightarrow> ending = None))"

text \<open>The \<^verbatim>\<open>detail\<close> field of a response body that parsed as a JSON object.\<close>

definition detail_of :: "response \<Rightarrow> json option" where
  "detail_of r =
     (case json_result r of
        Inr (JObj kvs) \<Rightarrow> map_of kvs ''detail''
      | _ \<Rightarrow> None)"

section \<open>The consumer: \<^verbatim>\<open>handleSend\<close> in \<^verbatim>\<open>DevicePanel.tsx\<close>\<close>

text \<open>
  The events as the callbacks of \<^verbatim>\<open>handleSend\<close> are typed, with the fields the handlers
  read: \<^verbatim>\<open>chunk\<close>; \<^verbatim>\<open>step\<close>, \<^verbatim>\<open>thinking\<close>, \<^verbatim>\<open>action\<close>, \<^verbatim>\<open>success\<close>, \<^verbatim>\<open>finished\<close>; \<^verbatim>\<open>message\<close>,
  \<^verbatim>\<open>steps\<close>, \<^verbatim>\<open>success\<close>; \<^verbatim>\<open>message\<close>; \<^verbatim>\<open>message\<close>.
\<close>

datatype stream_event =
    ThinkingChunkEvent string
  | StepEvent real string json bool bool
  | DoneEvent string real bool
  | ErrorEvent string
  | AbortedEvent string

text \<open>
  What happens to the panel: a callback is invoked with an event, the timer set by
  \<^verbatim>\<open>setTimeout(flushThinkingUpdate, 50)\<close> expires, or React renders, running the state
  updates queued since its last render. The delay itself is not modelled; an expiry or a
  render may stand anywhere in a sequence, but not inside a handler, which runs to its
  end.
\<close>

datatype occurrence = Received stream_event | TimeoutExpired | Render

text \<open>
  The agent message as the panel shows it; \<^verbatim>\<open>undefined\<close> is \<open>None\<close>. Its \<^verbatim>\<open>id\<close>, \<^verbatim>\<open>role\<close> and
  \<^verbatim>\<open>timestamp\<close> are left out. \<open>agentMessage\<close> is the constant of that name in \<^verbatim>\<open>handleSend\<close>.
\<close>

record agent_message =
  content :: string
  thinking :: "string list"
  actions :: "json list"
  steps :: "real option"
  success :: "bool option"
  isStreaming :: bool
  currentThinking :: "string option"

definition agentMessage :: agent_message where
  "agentMessage =
     \<lparr>content = '''', thinking = [], actions = [], steps = None, success = None,
      isStreaming = True, currentThinking = Some ''''\<rparr>"

text \<open>
  A state update handed to React. The handlers give \<^verbatim>\<open>setMessages\<close> an updater function,
  which React runs later; what it writes into the agent message is read then, not when
  \<^verbatim>\<open>setMessages\<close> is called:
  \<^item> \<open>ShowCurrentThinking\<close>, from \<^verbatim>\<open>flushThinkingUpdate\<close>, writes the variable
    \<^verbatim>\<open>currentThinkingText\<close> into \<^verbatim>\<open>currentThinking\<close>;
  \<^item> \<open>ShowStep step\<close>, from the step handler, writes copies of \<^verbatim>\<open>thinkingList\<close> and
    \<^verbatim>\<open>actionsList\<close>, \<^verbatim>\<open>event.step\<close> and an empty \<^verbatim>\<open>currentThinking\<close>;
  \<^item> \<open>ReplaceMessage m\<close>, from the done, error and aborted handlers, puts in
    \<^verbatim>\<open>updatedAgentMessage\<close>, which the handler has built before the call.
  \<open>SetLoading\<close> and \<open>SetError\<close> are \<^verbatim>\<open>setLoading\<close> and \<^verbatim>\<open>setError\<close> with plain values.
\<close>

datatype update =
    ShowCurrentThinking
  | ShowStep real
  | ReplaceMessage agent_message
  | SetLoading bool
  | SetError "string option"

text \<open>
  The variables the closures of one \<^verbatim>\<open>handleSend\<close> call share; \<^verbatim>\<open>chatStreamRef\<close>, true while
  it holds the stream; the timers of the environment (those set and neither expired nor
  cleared, and the id the next \<^verbatim>\<open>setTimeout\<close> returns); and React's side: the updates
  queued and not yet run, and the state as last rendered, of which \<open>shownMessage\<close> is the
  agent message in \<^verbatim>\<open>messages\<close>.
\<close>

record panel_state =
  thinkingList :: "string list"
  actionsList :: "json list"
  currentThinkingText :: string
  thinkingChunksBuffer :: "string list"
  updateTimeoutId :: "nat option"
  chatStreamRef :: bool
  pendingTimers :: "nat list"
  nextTimerId :: nat
  queue :: "update list"
  shownMessage :: agent_message
  loading :: bool
  error :: "string option"

text \<open>
  The state when \<^verbatim>\<open>handleSend\<close> has returned and React has rendered what it set.
\<close>

definition initial_panel :: panel_state where
  "initial_panel =
     \<lparr>thinkingList = [], actionsList = [], currentThinkingText = '''',
      thinkingChunksBuffer = [], updateTimeoutId = None, chatStreamRef = True,
      pendingTimers = [], nextTimerId = 1,
      queue = [], shownMessage = agentMessage, loading = True, error = None\<rparr>"

definition setTimeout :: "panel_state \<Rightarrow> nat \<times> panel_state" where
  "setTimeout st =
     (nextTimerId st,
      st\<lparr>pendingTimers := pendingTimers st @ [nextTimerId st],
         nextTimerId := Suc (nextTimerId st)\<rparr>)"

definition clearTimeout :: "nat \<Rightarrow> panel_state \<Rightarrow> panel_state" where
  "clearTimeout i st = st\<lparr>pendingTimers := removeAll i (pendingTimers st)\<rparr>"

text \<open>Handing an update to React: it joins the queue.\<close>

definition enqueue :: "update \<Rightarrow> panel_state \<Rightarrow> panel_state" where
  "enqueue u st = st\<lparr>queue := queue st @ [u]\<rparr>"

definition flushThinkingUpdate :: "panel_state \<Rightarrow> panel_state" where
  "flushThinkingUpdate st =
     (let st1 =
        (if length (thinkingChunksBuffer st) > 0 then
           (let chunksToAdd = concat (thinkingChunksBuffer st);
                st' = st\<lparr>thinkingChunksBuffer := [],
                         currentThinkingText := currentThinkingText st @ chunksToAdd\<rparr>
            in enqueue ShowCurrentThinking st')
         else st)
      in st1\<lparr>updateTimeoutId := None\<rparr>)"

definition onThinkingChunk :: "panel_state \<Rightarrow> string \<Rightarrow> panel_state" where
  "onThinkingChunk st chunk =
     (let st1 = st\<lparr>thinkingChunksBuffer := thinkingChunksBuffer st @ [chunk]\<rparr> in
      if updateTimeoutId st1 = None then
        (let (i, st2) = setTimeout st1 in st2\<lparr>updateTimeoutId := Some i\<rparr>)
      else st1)"

definition onStep :: "panel_state \<Rightarrow> real \<Rightarrow> string \<Rightarrow> json \<Rightarrow> panel_state" where
  "onStep st event_step event_thinking event_action =
     (let st1 =
            (case updateTimeoutId st of
               None \<Rightarrow> st
             | Some i \<Rightarrow> flushThinkingUpdate (clearTimeout i st));
          stepThinking =
            (if event_thinking \<noteq> '''' then event_thinking else currentThinkingText st1);
          st2 = (if stepThinking \<noteq> ''''
                 then st1\<lparr>thinkingList := thinkingList st1 @ [stepThinking]\<rparr> else st1);
          st3 = st2\<lparr>currentThinkingText := '''',
                    actionsList := actionsList st2 @ [event_action]\<rparr>
      in enqueue (ShowStep event_step) st3)"

text \<open>
  The guard that opens the done, error and aborted handlers:
  \<^verbatim>\<open>if (updateTimeoutId !== null) clearTimeout(updateTimeoutId)\<close>.
\<close>

definition clearPending :: "panel_state \<Rightarrow> panel_state" where
  "clearPending st = (case updateTimeoutId st of None \<Rightarrow> st | Some i \<Rightarrow> clearTimeout i st)"

definition onDone :: "panel_state \<Rightarrow> string \<Rightarrow> real \<Rightarrow> bool \<Rightarrow> panel_state" where
  "onDone st event_message event_steps event_success =
     (let st1 = clearPending st;
          updatedAgentMessage =
            agentMessage\<lparr>content := event_message, success := Some event_success,
                           isStreaming := False, steps := Some event_steps,
                           thinking := thinkingList st1, actions := actionsList st1,
                           currentThinking := None\<rparr>;
          st2 = enqueue (SetLoading False) (enqueue (ReplaceMessage updatedAgentMessage) st1)
      in st2\<lparr>chatStreamRef := False\<rparr>)"

definition onError :: "panel_state \<Rightarrow> string \<Rightarrow> panel_state" where
  "onError st event_message =
     (let st1 = clearPending st;
          updatedAgentMessage =
            agentMessage\<lparr>content := ''Error: '' @ event_message, success := Some False,
                           isStreaming := False,
                           thinking := thinkingList st1, actions := actionsList st1,
                           currentThinking := None\<rparr>;
          st2 = enqueue (SetError (Some event_message))
                  (enqueue (SetLoading False) (enqueue (ReplaceMessage updatedAgentMessage) st1))
      in st2\<lparr>chatStreamRef := False\<rparr>)"

definition onAborted :: "panel_state \<Rightarrow> string \<Rightarrow> panel_state" where
  "onAborted st event_message =
     (let st1 = clearPending st;
          updatedAgentMessage =
            agentMessage\<lparr>content :=
                             (if event_message \<noteq> '''' then event_message
                              else ''Chat aborted by user''),
                           success := Some False, isStreaming := False,
                           thinking := thinkingList st1, actions := actionsList st1,
                           currentThinking := None\<rparr>;
          st2 = enqueue (SetLoading False) (enqueue (ReplaceMessage updatedAgentMessage) st1)
      in st2\<lparr>chatStreamRef := False\<rparr>)"

text \<open>The oldest pending timer expires and runs \<^verbatim>\<open>flushThinkingUpdate\<close>.\<close>

definition timeoutExpires :: "panel_state \<Rightarrow> panel_state" where
  "timeoutExpires st =
     (case pendingTimers st of
        [] \<Rightarrow> st
      | i # rest \<Rightarrow> flushThinkingUpdate (st\<lparr>pendingTimers := rest\<rparr>))"

text \<open>
  React runs one queued update: an updater reads the variables as they are now.
\<close>

fun run_update :: "panel_state \<Rightarrow> update \<Rightarrow> panel_state" where
  "run_update st ShowCurrentThinking =
     st\<lparr>shownMessage := (shownMessage st)\<lparr>currentThinking := Some (currentThinkingText st)\<rparr>\<rparr>"
| "run_update st (ShowStep event_step) =
     st\<lparr>shownMessage := (shownMessage st)
          \<lparr>thinking := thinkingList st, actions := actionsList st, steps := Some event_step,
           currentThinking := Some ''''\<rparr>\<rparr>"
| "run_update st (ReplaceMessage m) = st\<lparr>shownMessage := m\<rparr>"
| "run_update st (SetLoading b) = st\<lparr>loading := b\<rparr>"
| "run_update st (SetError e) = st\<lparr>error := e\<rparr>"

text \<open>A render: the queued updates run in the order they were handed over.\<close>

definition render :: "panel_state \<Rightarrow> panel_state" where
  "render st = (foldl run_update st (queue st))\<lparr>queue := []\<rparr>"

fun panel_step :: "panel_state \<Rightarrow> occurrence \<Rightarrow> panel_state" where
  "panel_step st (Received (ThinkingChunkEvent chunk)) = onThinkingChunk st chunk"
| "panel_step st (Received (StepEvent event_step event_thinking event_action event_success finished)) =
     onStep st event_step event_thinking event_action"
| "panel_step st (Received (DoneEvent event_message event_steps event_success)) =
     onDone st event_message event_steps event_success"
| "panel_step st (Received (ErrorEvent event_message)) = onError st event_message"
| "panel_step st (Received (AbortedEvent event_message)) = onAborted st event_message"
| "panel_step st TimeoutExpired = timeoutExpires st"
| "panel_step st Render = render st"

text \<open>
  A run of the panel: the state it ends in, and the agent message as each render in the
  run showed it.
\<close>

fun panel_run :: "panel_state \<Rightarrow> occurrence list \<Rightarrow> panel_state \<times> agent_message list" where
  "panel_run st [] = (st, [])"
| "panel_run st (x # xs) =
     (let st' = panel_step st x;
          (st'', shown) = panel_run st' xs
      in (st'', (if x = Render then [shownMessage st'] else []) @ shown))"

section \<open>Notions the properties of the consumer are stated with\<close>

text \<open>The text of the chunks received, in arrival order.\<close>

fun received_text :: "occurrence list \<Rightarrow> string" where
  "received_text [] = ''''"
| "received_text (Received (ThinkingChunkEvent chunk) # xs) = chunk @ received_text xs"
| "received_text (x # xs) = received_text xs"

text \<open>What has happened since the last step event.\<close>

fun is_step :: "occurrence \<Rightarrow> bool" where
  "is_step (Received (StepEvent event_step event_thinking event_action event_success finished)) = True"
| "is_step x = False"

definition since_last_step :: "occurrence list \<Rightarrow> occurrence list" where
  "since_last_step xs = rev (takeWhile (\<lambda>x. \<not> is_step x) (rev xs))"

text \<open>
  What holds of the timer in every state the panel reaches: a pending timer is the one
  \<^verbatim>\<open>updateTimeoutId\<close> names, with text waiting for it; and text waits only while
  \<^verbatim>\<open>updateTimeoutId\<close> is set.
\<close>

definition timer_inv :: "panel_state \<Rightarrow> bool" where
  "timer_inv st \<longleftrightarrow>
     (pendingTimers st = [] \<or>
      (\<exists>i. pendingTimers st = [i] \<and> updateTimeoutId st = Some i \<and> thinkingChunksBuffer st \<noteq> []))
     \<and> (updateTimeoutId st = None \<longrightarrow> thinkingChunksBuffer st = [])"

text \<open>A step event that brings thinking of its own, which the step handler prefers.\<close>

fun brings_thinking :: "occurrence \<Rightarrow> bool" where
  "brings_thinking (Received (StepEvent event_step event_thinking event_action event_success finished)) =
     (event_thinking \<noteq> '''')"
| "brings_thinking x = False"

section \<open>Platform functions for the examples\<close>

text \<open>
  \<^verbatim>\<open>JSON.parse\<close> cut down to the payload texts of the examples below: \<^verbatim>\<open>{}\<close> is the empty
  object, and \<^verbatim>\<open>{bad\<close>, which is not JSON, makes it throw. The examples apply it to no
  other text.
\<close>

definition example_parse :: "string \<Rightarrow> json option" where
  "example_parse s = (if s = ''{}'' then Some (JObj []) else None)"

text \<open>The string conversion of a plain object, the only kind of value the examples convert.\<close>

definition example_toMessage :: "json \<Rightarrow> string" where
  "example_toMessage v = ''[object Object]''"

section \<open>Line splitting and the read loop\<close>

lemma split_nl_nonempty: "split_nl s \<noteq> []"
  by (induction s) (auto split: list.splits)

lemma split_nl_append:
  "split_nl (xs @ ys) = butlast (split_nl xs) @ split_nl (last (split_nl xs) @ ys)"
proof (induction xs)
  case Nil
  show ?case by simp
next
  case (Cons c xs)
  show ?case
  proof (cases "c = NL")
    case True
    with Cons show ?thesis by (simp add: split_nl_nonempty)
  next
    case False
    obtain l ls where s: "split_nl xs = l # ls"
      using split_nl_nonempty [of xs] by (cases "split_nl xs") auto
    show ?thesis
    proof (cases ls)
      case Nil
      with False s Cons show ?thesis by (simp split: list.splits)
    next
      case (Cons l' ls')
      with False s Cons.IH show ?thesis
        by (simp add: split_nl_nonempty split: list.splits)
    qed
  qed
qed

lemma split_nl_no_newline: "NL \<notin> set s \<Longrightarrow> split_nl s = [s]"
  by (induction s) auto

lemma split_nl_segments: "l \<in> set (split_nl s) \<Longrightarrow> NL \<notin> set l"
  by (induction s arbitrary: l) (auto split: if_splits list.splits)

lemma last_split_nl_no_newline: "NL \<notin> set (last (split_nl s))"
  using split_nl_segments [of "last (split_nl s)" s] split_nl_nonempty [of s] by simp

lemma process_lines_append:
  "process_lines parse ab et (xs @ ys) =
     (let (et', cs) = process_lines parse ab et xs;
          (et'', cs') = process_lines parse ab et' ys
      in (et'', cs @ cs'))"
  by (induction xs arbitrary: et) (auto split: prod.splits)

lemma on_chunk_eq:
  "on_chunk parse ab st text =
     (let segs = split_nl (buffer st @ text);
          (et, cs) = process_lines parse ab (eventType st) (butlast segs)
      in (\<lparr>buffer = last segs, eventType = et\<rparr>, cs))"
  by (simp add: on_chunk_def pop_def split_nl_nonempty Let_def)

lemma read_loop_eq:
  "NL \<notin> set (buffer st) \<Longrightarrow>
   read_loop parse ab st texts =
     (let segs = split_nl (buffer st @ concat texts);
          (et, cs) = process_lines parse ab (eventType st) (butlast segs)
      in (\<lparr>buffer = last segs, eventType = et\<rparr>, cs))"
proof (induction texts arbitrary: st)
  case Nil
  then show ?case by (simp add: split_nl_no_newline)
next
  case (Cons t ts)
  obtain st' cs where oc: "on_chunk parse ab st t = (st', cs)" by (cases "on_chunk parse ab st t")
  define segs where "segs = split_nl (buffer st @ t)"
  obtain et cs0 where pl: "process_lines parse ab (eventType st) (butlast segs) = (et, cs0)"
    by (cases "process_lines parse ab (eventType st) (butlast segs)")
  from oc pl have st': "st' = \<lparr>buffer = last segs, eventType = et\<rparr>" and cs: "cs = cs0"
    by (auto simp: on_chunk_eq segs_def Let_def)
  have nb: "NL \<notin> set (buffer st')" using st' by (simp add: segs_def last_split_nl_no_newline)
  have sp: "split_nl (buffer st @ concat (t # ts)) = butlast segs @ split_nl (buffer st' @ concat ts)"
    using split_nl_append [of "buffer st @ t" "concat ts"] st' by (simp add: segs_def)
  have bl: "butlast (butlast segs @ split_nl (buffer st' @ concat ts))
              = butlast segs @ butlast (split_nl (buffer st' @ concat ts))"
    by (simp add: butlast_append split_nl_nonempty)
  have la: "last (butlast segs @ split_nl (buffer st' @ concat ts))
              = last (split_nl (buffer st' @ concat ts))"
    by (simp add: split_nl_nonempty)
  obtain et2 cs2 where pl2:
    "process_lines parse ab et (butlast (split_nl (buffer st' @ concat ts))) = (et2, cs2)"
    by (cases "process_lines parse ab et (butlast (split_nl (buffer st' @ concat ts)))")
  have ih: "read_loop parse ab st' ts
              = (\<lparr>buffer = last (split_nl (buffer st' @ concat ts)), eventType = et2\<rparr>, cs2)"
    using Cons.IH [OF nb] pl2 st' by (simp add: Let_def)
  have lhs: "read_loop parse ab st (t # ts)
              = (\<lparr>buffer = last (split_nl (buffer st' @ concat ts)), eventType = et2\<rparr>, cs @ cs2)"
    using oc ih by simp
  have whole: "process_lines parse ab (eventType st)
                 (butlast (split_nl (buffer st @ concat (t # ts)))) = (et2, cs @ cs2)"
    using pl pl2 cs by (simp only: sp bl process_lines_append) (simp add: Let_def)
  show ?case
    unfolding lhs using whole by (simp only: sp la Let_def) simp
qed

lemma read_loop_initial:
  "read_loop parse ab initial_state texts =
     (let segs = split_nl (concat texts);
          (et, cs) = process_lines parse ab ''message'' (butlast segs)
      in (\<lparr>buffer = last segs, eventType = et\<rparr>, cs))"
  using read_loop_eq [of initial_state parse ab texts] by (simp add: initial_state_def)

text \<open>
  Claim C4. However the response text is cut into reads, also in the middle of a line,
  the read loop ends in the same state and has invoked the same callbacks in the same
  order as when the whole text arrives in a single read, and the session as a whole
  invokes the same callbacks. The loop acts on exactly the lines of the whole text that
  a newline closes, in order; the unfinished last line is what waits in \<open>buffer\<close>.
\<close>

theorem chunking_irrelevant:
  "read_loop parse ab initial_state texts = read_loop parse ab initial_state [concat texts]
   \<and> read_loop parse ab initial_state texts
       = (\<lparr>buffer = last (split_nl (concat texts)),
           eventType = fst (process_lines parse ab ''message'' (butlast (split_nl (concat texts))))\<rparr>,
          snd (process_lines parse ab ''message'' (butlast (split_nl (concat texts)))))
   \<and> sendMessageStream parse tm ab
         (Resolved \<lparr>status = n, json_result = j, body = Some (texts, ending)\<rparr>)
       = sendMessageStream parse tm ab
         (Resolved \<lparr>status = n, json_result = j, body = Some ([concat texts], ending)\<rparr>)"
proof -
  have eq: "read_loop parse ab initial_state texts = read_loop parse ab initial_state [concat texts]"
    by (simp only: read_loop_initial) simp
  have lines: "read_loop parse ab initial_state texts
       = (\<lparr>buffer = last (split_nl (concat texts)),
           eventType = fst (process_lines parse ab ''message'' (butlast (split_nl (concat texts))))\<rparr>,
          snd (process_lines parse ab ''message'' (butlast (split_nl (concat texts)))))"
    by (simp only: read_loop_initial Let_def split: prod.splits) simp
  have "sendMessageStream parse tm ab
          (Resolved \<lparr>status = n, json_result = j, body = Some (texts, ending)\<rparr>)
       = sendMessageStream parse tm ab
          (Resolved \<lparr>status = n, json_result = j, body = Some ([concat texts], ending)\<rparr>)"
    by (simp add: sendMessageStream_def on_response_def error_detail_def ok_def eq
        del: read_loop.simps)
  with eq lines show ?thesis by blast
qed

lemma data_line_parse_fail:
  "parse payload = None \<Longrightarrow> process_line parse ab et (''data: '' @ payload) = (et, [])"
  by (simp add: process_line_def startsWith_def)

lemma split_nl_line:
  "NL \<notin> set l \<Longrightarrow> split_nl (l @ NL # rest) = l # split_nl rest"
  by (induction l) (auto split: list.splits)

lemma split_nl_line_boundary:
  assumes "before = [] \<or> last before = NL"
  shows "split_nl (before @ rest) = butlast (split_nl before) @ split_nl rest"
proof -
  have "last (split_nl before) = []"
    using assms
  proof
    assume "before = []" then show ?thesis by simp
  next
    assume l: "last before = NL"
    show ?thesis
    proof (cases "before = []")
      case True then show ?thesis by simp
    next
      case False
      then obtain bs where "before = bs @ [NL]" using l by (metis append_butlast_last_id)
      then show ?thesis
        using split_nl_append [of bs "[NL]"]
          split_nl_line [OF last_split_nl_no_newline [of bs], of "[]"]
        by (simp add: split_nl_nonempty)
    qed
  qed
  then show ?thesis using split_nl_append [of before rest] by simp
qed

text \<open>
  Claim C5. A \<^verbatim>\<open>data:\<close> line whose payload \<^verbatim>\<open>JSON.parse\<close> rejects invokes no callback and
  leaves the event type as it was; the loop goes on, and a stream that contains such a
  line between complete lines ends in the same state with the same callbacks as the
  stream without it, however either stream is cut into reads.
\<close>

theorem malformed_frame_dropped:
  assumes "parse payload = None" and "NL \<notin> set payload"
    and "before = [] \<or> last before = NL"
    and "concat texts = before @ ''data: '' @ payload @ [NL] @ rest"
    and "concat texts' = before @ rest"
  shows "process_line parse ab et (''data: '' @ payload) = (et, [])
         \<and> read_loop parse ab initial_state texts = read_loop parse ab initial_state texts'"
proof -
  let ?line = "''data: '' @ payload"
  have nl: "NL \<notin> set ?line" using assms(2) by (simp add: NL_def)
  have s1: "split_nl (concat texts) = butlast (split_nl before) @ ?line # split_nl rest"
    using split_nl_line_boundary [OF assms(3), of "?line @ NL # rest"] split_nl_line [OF nl, of rest]
    by (simp add: assms(4))
  have s2: "split_nl (concat texts') = butlast (split_nl before) @ split_nl rest"
    using split_nl_line_boundary [OF assms(3), of rest] by (simp add: assms(5))
  have b1: "butlast (split_nl (concat texts))
              = butlast (split_nl before) @ ?line # butlast (split_nl rest)"
    unfolding s1 by (simp add: butlast_append split_nl_nonempty)
  have b2: "butlast (split_nl (concat texts')) = butlast (split_nl before) @ butlast (split_nl rest)"
    unfolding s2 by (simp add: butlast_append split_nl_nonempty)
  have l: "last (split_nl (concat texts)) = last (split_nl (concat texts'))"
    unfolding s1 s2 by (simp add: split_nl_nonempty)
  have drop: "process_lines parse ab e (?line # ls) = process_lines parse ab e ls" for e ls
    using data_line_parse_fail [of parse payload ab e] assms(1) by simp
  have p: "process_lines parse ab ''message'' (butlast (split_nl (concat texts)))
             = process_lines parse ab ''message'' (butlast (split_nl (concat texts')))"
    unfolding b1 b2 by (simp only: process_lines_append drop)
  have "read_loop parse ab initial_state texts = read_loop parse ab initial_state texts'"
    by (simp only: read_loop_initial Let_def p l)
  with data_line_parse_fail [of parse payload ab et] assms(1) show ?thesis by simp
qed

text \<open>
  The hypotheses of C5 at a stream with the line \<^verbatim>\<open>data: {bad\<close>, cut inside that line: the
  step frame after it is still dispatched.
\<close>

theorem malformed_frame_dropped_witness:
  "example_parse ''{bad'' = None
   \<and> process_line example_parse True ''step'' ''data: {bad'' = (''step'', [])
   \<and> read_loop example_parse True initial_state
        [''event: step\<newline>data: {ba'', ''d\<newline>data: {}\<newline>'']
      = read_loop example_parse True initial_state [''event: step\<newline>data: {}\<newline>'']
   \<and> snd (read_loop example_parse True initial_state
        [''event: step\<newline>data: {ba'', ''d\<newline>data: {}\<newline>'']) = [OnStep (JObj [])]"
proof -
  have p: "example_parse ''{bad'' = None" by (simp add: example_parse_def)
  have n: "NL \<notin> set ''{bad''" by (simp add: NL_def)
  have b: "''event: step\<newline>'' = [] \<or> last ''event: step\<newline>'' = NL" by (simp add: NL_def)
  have c: "concat [''event: step\<newline>data: {ba'', ''d\<newline>data: {}\<newline>'']
             = ''event: step\<newline>'' @ ''data: '' @ ''{bad'' @ [NL] @ ''data: {}\<newline>''"
    by (simp add: NL_def)
  have c': "concat [''event: step\<newline>data: {}\<newline>''] = ''event: step\<newline>'' @ ''data: {}\<newline>''"
    by simp
  have v: "snd (read_loop example_parse True initial_state [''event: step\<newline>data: {}\<newline>''])
             = [OnStep (JObj [])]"
    by (simp add: initial_state_def on_chunk_def pop_def NL_def process_line_def startsWith_def
        trim_def js_whitespace_def dispatch_def example_parse_def)
  from malformed_frame_dropped [of example_parse "''{bad''" "''event: step\<newline>''"
      "[''event: step\<newline>data: {ba'', ''d\<newline>data: {}\<newline>'']" "''data: {}\<newline>''"
      "[''event: step\<newline>data: {}\<newline>'']" True "''step''", OF p n b c c'] p v
  show ?thesis by simp
qed

text \<open>
  Claim C10. When the reader reports \<^verbatim>\<open>done\<close>, text after the last newline is dropped: a
  session whose text ends in a piece without a newline invokes exactly the callbacks of
  the session without that piece, whatever the piece is; it was only waiting in
  \<open>buffer\<close>.
\<close>

theorem unterminated_tail_discarded:
  assumes "NL \<notin> set pending" and "concat texts = whole @ pending"
  shows "sendMessageStream parse tm ab
           (Resolved \<lparr>status = n, json_result = j, body = Some (texts, None)\<rparr>)
         = sendMessageStream parse tm ab
           (Resolved \<lparr>status = n, json_result = j, body = Some ([whole], None)\<rparr>)
         \<and> buffer (fst (read_loop parse ab initial_state texts))
             = buffer (fst (read_loop parse ab initial_state [whole])) @ pending"
proof -
  have s: "split_nl (whole @ pending) = butlast (split_nl whole) @ [last (split_nl whole) @ pending]"
    using split_nl_append [of whole pending] last_split_nl_no_newline [of whole] assms(1)
    by (simp add: split_nl_no_newline)
  have "read_loop parse ab initial_state texts
          = (let (st, cs) = read_loop parse ab initial_state [whole]
             in (st\<lparr>buffer := buffer st @ pending\<rparr>, cs))"
    by (simp only: read_loop_initial assms(2) s) (simp add: Let_def split: prod.splits)
  then show ?thesis
    by (simp add: sendMessageStream_def on_response_def error_detail_def ok_def
        split: prod.splits del: read_loop.simps)
qed

text \<open>
  The hypotheses of C10 at a stream ending in \<^verbatim>\<open>data: {}\<close> with no newline: no callback,
  although the same line closed by a newline invokes \<^verbatim>\<open>onDone\<close>.
\<close>

theorem unterminated_tail_discarded_witness:
  "NL \<notin> set ''data: {}''
   \<and> sendMessageStream example_parse example_toMessage True
        (Resolved \<lparr>status = 200, json_result = Inr JNull,
                   body = Some ([''event: done\<newline>da'', ''ta: {}''], None)\<rparr>)
      = sendMessageStream example_parse example_toMessage True
        (Resolved \<lparr>status = 200, json_result = Inr JNull,
                   body = Some ([''event: done\<newline>''], None)\<rparr>)
   \<and> sendMessageStream example_parse example_toMessage True
        (Resolved \<lparr>status = 200, json_result = Inr JNull,
                   body = Some ([''event: done\<newline>''], None)\<rparr>) = []
   \<and> sendMessageStream example_parse example_toMessage True
        (Resolved \<lparr>status = 200, json_result = Inr JNull,
                   body = Some ([''event: done\<newline>data: {}\<newline>''], None)\<rparr>) = [OnDone (JObj [])]"
proof -
  have n: "NL \<notin> set ''data: {}''" by (simp add: NL_def)
  have c: "concat [''event: done\<newline>da'', ''ta: {}''] = ''event: done\<newline>'' @ ''data: {}''" by simp
  have v0: "sendMessageStream example_parse example_toMessage True
        (Resolved \<lparr>status = 200, json_result = Inr JNull,
                   body = Some ([''event: done\<newline>''], None)\<rparr>) = []"
    by (simp add: sendMessageStream_def on_response_def ok_def initial_state_def on_chunk_def
        pop_def NL_def process_line_def startsWith_def trim_def js_whitespace_def)
  have v1: "sendMessageStream example_parse example_toMessage True
        (Resolved \<lparr>status = 200, json_result = Inr JNull,
                   body = Some ([''event: done\<newline>data: {}\<newline>''], None)\<rparr>) = [OnDone (JObj [])]"
    by (simp add: sendMessageStream_def on_response_def ok_def initial_state_def on_chunk_def
        pop_def NL_def process_line_def startsWith_def trim_def js_whitespace_def dispatch_def
        example_parse_def)
  from unterminated_tail_discarded [OF n c, of example_parse example_toMessage True 200 "Inr JNull"]
    n v0 v1
  show ?thesis by simp
qed

section \<open>Dispatch by event name\<close>

lemma process_lines_event_name:
  "fst (process_lines parse ab et ls) =
     (case filter (\<lambda>l. startsWith l ''event: '') ls of
        [] \<Rightarrow> et
      | e # es \<Rightarrow> trim (drop 7 (last (e # es))))"
proof (induction ls arbitrary: et)
  case Nil
  show ?case by simp
next
  case (Cons l ls)
  obtain et' cs where pl: "process_line parse ab et l = (et', cs)"
    by (cases "process_line parse ab et l")
  have step: "fst (process_lines parse ab et (l # ls)) = fst (process_lines parse ab et' ls)"
    using pl by (simp split: prod.splits)
  show ?case
  proof (cases "startsWith l ''event: ''")
    case True
    with pl have "et' = trim (drop 7 l)" by (simp add: process_line_def)
    with True show ?thesis
      unfolding step Cons.IH [of et'] by (simp split: list.splits)
  next
    case False
    with pl have e: "et' = et" by (auto simp: process_line_def split: option.splits if_splits)
    from False show ?thesis
      unfolding step e by (simp add: Cons.IH [of et])
  qed
qed

lemma dispatch_table:
  "dispatch ab name d =
     (case callback_for name of
        None \<Rightarrow> []
      | Some cb \<Rightarrow> if name = ''aborted'' \<and> \<not> ab then [] else [cb d])"
  by (simp add: dispatch_def callback_for_def)

text \<open>
  Claim C8, as amended. For a complete \<^verbatim>\<open>data:\<close> line whose payload parses, what is invoked
  depends on the current event name alone: the name set by the last preceding \<^verbatim>\<open>event:\<close>
  line (trimmed), or \<^verbatim>\<open>message\<close> when there is none. The names \<^verbatim>\<open>thinking_chunk\<close>,
  \<^verbatim>\<open>step\<close>, \<^verbatim>\<open>done\<close>, \<^verbatim>\<open>aborted\<close> and \<^verbatim>\<open>error\<close> invoke their callback with the parsed
  payload, \<^verbatim>\<open>aborted\<close> only when \<^verbatim>\<open>onAborted\<close> was passed; any other name invokes nothing.
\<close>

theorem callback_by_event_name:
  assumes "parse payload = Some d"
  shows "snd (process_lines parse ab ''message'' (preceding @ [''data: '' @ payload]))
           = snd (process_lines parse ab ''message'' preceding)
             @ (case callback_for (current_event_name preceding) of
                  None \<Rightarrow> []
                | Some cb \<Rightarrow>
                    if current_event_name preceding = ''aborted'' \<and> \<not> ab then [] else [cb d])"
proof -
  obtain et cs where pre: "process_lines parse ab ''message'' preceding = (et, cs)"
    by (cases "process_lines parse ab ''message'' preceding")
  have n: "et = current_event_name preceding"
    using process_lines_event_name [of parse ab "''message''" preceding] pre
    by (simp add: current_event_name_def)
  have l: "process_line parse ab et (''data: '' @ payload) = (et, dispatch ab et d)"
    using assms by (simp add: process_line_def startsWith_def)
  have "process_lines parse ab ''message'' (preceding @ [''data: '' @ payload])
          = (et, cs @ dispatch ab et d)"
    by (simp only: process_lines_append pre l process_lines.simps Let_def split) simp
  then show ?thesis
    by (simp only: pre n dispatch_table snd_conv)
qed

text \<open>
  The hypothesis of C8 at a stream whose event name \<^verbatim>\<open>done\<close>, set with surrounding blanks,
  carries forward to a second \<^verbatim>\<open>data:\<close> line.
\<close>

theorem callback_by_event_name_witness:
  "example_parse ''{}'' = Some (JObj [])
   \<and> current_event_name [''event: step'', ''data: {}'', ''event:  done '', ''data: {}''] = ''done''
   \<and> snd (process_lines example_parse True ''message''
        ([''event: step'', ''data: {}'', ''event:  done '', ''data: {}''] @ [''data: '' @ ''{}'']))
      = [OnStep (JObj []), OnDone (JObj []), OnDone (JObj [])]"
proof -
  have p: "example_parse ''{}'' = Some (JObj [])" by (simp add: example_parse_def)
  have c: "current_event_name [''event: step'', ''data: {}'', ''event:  done '', ''data: {}''] = ''done''"
    by (simp add: current_event_name_def startsWith_def trim_def js_whitespace_def)
  have v: "snd (process_lines example_parse True ''message''
        [''event: step'', ''data: {}'', ''event:  done '', ''data: {}''])
      = [OnStep (JObj []), OnDone (JObj [])]"
    by (simp add: process_line_def startsWith_def trim_def js_whitespace_def dispatch_def
        example_parse_def)
  from callback_by_event_name [of example_parse "''{}''" "JObj []" True
      "[''event: step'', ''data: {}'', ''event:  done '', ''data: {}'']"] p
  show ?thesis by (simp only: c v p) (simp add: callback_for_def)
qed

text \<open>
  C8 as stated fails: under the event name \<^verbatim>\<open>done\<close> a \<^verbatim>\<open>data:\<close> line that is not JSON
  invokes nothing, and under \<^verbatim>\<open>aborted\<close> a valid line invokes nothing when \<^verbatim>\<open>onAborted\<close>
  was not passed.
\<close>

theorem callback_by_event_name_counterexample:
  "snd (process_lines example_parse True ''message'' [''event: done'', ''data: {bad'']) = []
   \<and> snd (process_lines example_parse False ''message'' [''event: aborted'', ''data: {}'']) = []"
  by (simp add: process_line_def startsWith_def trim_def js_whitespace_def dispatch_def
      example_parse_def)

section \<open>The optional \<^verbatim>\<open>onAborted\<close>\<close>

lemma dispatch_without_onAborted:
  "dispatch False et d = filter (\<lambda>c. \<not> is_OnAborted c) (dispatch True et d)"
  by (simp add: dispatch_def)

lemma process_line_without_onAborted:
  "process_line parse False et l =
     (fst (process_line parse True et l),
      filter (\<lambda>c. \<not> is_OnAborted c) (snd (process_line parse True et l)))"
  by (simp add: process_line_def dispatch_without_onAborted split: option.splits)

lemma process_lines_without_onAborted:
  "process_lines parse False et ls =
     (fst (process_lines parse True et ls),
      filter (\<lambda>c. \<not> is_OnAborted c) (snd (process_lines parse True et ls)))"
proof (induction ls arbitrary: et)
  case Nil
  show ?case by simp
next
  case (Cons l ls)
  show ?case
    by (simp add: process_line_without_onAborted [of parse et l] Cons.IH split: prod.splits)
qed

lemma frames_without_onAborted:
  "snd (read_loop parse False initial_state texts)
     = filter (\<lambda>c. \<not> is_OnAborted c) (snd (read_loop parse True initial_state texts))"
  by (simp only: read_loop_initial Let_def process_lines_without_onAborted [of parse "''message''"])
     (simp split: prod.splits)

lemma on_catch_without_onAborted:
  "on_catch False e = filter (\<lambda>c. \<not> is_OnAborted c) (on_catch True e)"
  by (simp add: on_catch_def)

text \<open>
  Claim C9. Without \<^verbatim>\<open>onAborted\<close>, a line read under the event name \<^verbatim>\<open>aborted\<close> invokes
  nothing, and neither does the \<^verbatim>\<open>catch\<close> handler on an \<^verbatim>\<open>AbortError\<close>: a session
  cancelled before the response invokes no callback at all. No other callback stands in:
  every session without \<^verbatim>\<open>onAborted\<close> invokes exactly what the same session with it
  invokes, less the \<^verbatim>\<open>onAborted\<close> invocations.
\<close>

theorem omitted_onAborted_dispatches_nothing:
  "snd (process_line parse False ''aborted'' line) = []
   \<and> on_catch False (JsError ''AbortError'' m) = []
   \<and> sendMessageStream parse tm False (Rejected (JsError ''AbortError'' m)) = []
   \<and> sendMessageStream parse tm False outcome
       = filter (\<lambda>c. \<not> is_OnAborted c) (sendMessageStream parse tm True outcome)"
proof -
  have a: "snd (process_line parse False ''aborted'' line) = []"
    by (simp add: process_line_def dispatch_def split: option.splits)
  have b: "on_catch False (JsError ''AbortError'' m) = []"
    by (simp add: on_catch_def)
  have c: "sendMessageStream parse tm False (Rejected (JsError ''AbortError'' m)) = []"
    by (simp add: sendMessageStream_def on_catch_def)
  have d: "sendMessageStream parse tm False outcome
       = filter (\<lambda>c. \<not> is_OnAborted c) (sendMessageStream parse tm True outcome)"
  proof (cases outcome)
    case (Rejected e)
    then show ?thesis by (simp add: sendMessageStream_def on_catch_without_onAborted)
  next
    case (Resolved r)
    then show ?thesis
      by (simp add: sendMessageStream_def on_response_def frames_without_onAborted
          on_catch_without_onAborted [symmetric] split: option.splits del: read_loop.simps)
  qed
  from a b c d show ?thesis by blast
qed

section \<open>Local cancellation\<close>

text \<open>
  Claim C7, as amended. When \<^verbatim>\<open>onAborted\<close> was passed and the fetch, or a read of the body
  of an \<^verbatim>\<open>ok\<close> response, rejects with an \<^verbatim>\<open>AbortError\<close>, the controller invokes
  \<^verbatim>\<open>onAborted\<close> once with the message \<^verbatim>\<open>Connection aborted by user\<close>, after the callbacks of
  the frames already read, and invokes no \<^verbatim>\<open>onError\<close> for the abort; with no frame read
  before, this is the only callback. (An abort that strikes while \<^verbatim>\<open>response.json()\<close>
  reads the body of a response that is not \<^verbatim>\<open>ok\<close> is swallowed with every other failure
  of that read; the statement is silent about it.)
\<close>

theorem local_abort_one_aborted:
  assumes "ok r" and "body r = Some (texts, Some (JsError ''AbortError'' m))"
  shows "sendMessageStream parse tm True (Rejected (JsError ''AbortError'' m'))
           = [OnAborted (JObj [(''type'', JStr ''aborted''), (''role'', JStr ''assistant''),
                               (''message'', JStr ''Connection aborted by user'')])]
         \<and> sendMessageStream parse tm True (Resolved r)
           = snd (read_loop parse True initial_state texts)
             @ [OnAborted (JObj [(''type'', JStr ''aborted''), (''role'', JStr ''assistant''),
                                 (''message'', JStr ''Connection aborted by user'')])]
         \<and> (texts = [] \<longrightarrow>
              sendMessageStream parse tm True (Resolved r)
                = [OnAborted (JObj [(''type'', JStr ''aborted''), (''role'', JStr ''assistant''),
                                    (''message'', JStr ''Connection aborted by user'')])])"
  using assms
  by (simp add: sendMessageStream_def on_response_def on_catch_def aborted_by_user_def
      del: read_loop.simps) simp

text \<open>
  The hypotheses of C7 at a session aborted after one step frame, at one aborted before
  any text was read, and at one aborted before the response.
\<close>

theorem local_abort_one_aborted_witness:
  "ok \<lparr>status = 200, json_result = Inr JNull,
       body = Some ([''event: step\<newline>data: {}\<newline>''],
                    Some (JsError ''AbortError'' ''The user aborted a request.''))\<rparr>
   \<and> sendMessageStream example_parse example_toMessage True
        (Resolved \<lparr>status = 200, json_result = Inr JNull,
           body = Some ([''event: step\<newline>data: {}\<newline>''],
                        Some (JsError ''AbortError'' ''The user aborted a request.''))\<rparr>)
      = [OnStep (JObj []),
         OnAborted (JObj [(''type'', JStr ''aborted''), (''role'', JStr ''assistant''),
                          (''message'', JStr ''Connection aborted by user'')])]
   \<and> sendMessageStream example_parse example_toMessage True
        (Resolved \<lparr>status = 200, json_result = Inr JNull,
           body = Some ([], Some (JsError ''AbortError'' ''The user aborted a request.''))\<rparr>)
      = [OnAborted (JObj [(''type'', JStr ''aborted''), (''role'', JStr ''assistant''),
                          (''message'', JStr ''Connection aborted by user'')])]
   \<and> sendMessageStream example_parse example_toMessage True
        (Rejected (JsError ''AbortError'' ''The user aborted a request.''))
      = [OnAborted (JObj [(''type'', JStr ''aborted''), (''role'', JStr ''assistant''),
                          (''message'', JStr ''Connection aborted by user'')])]"
proof -
  have o: "ok \<lparr>status = 200, json_result = Inr JNull,
       body = Some ([''event: step\<newline>data: {}\<newline>''],
                    Some (JsError ''AbortError'' ''The user aborted a request.''))\<rparr>"
    by (simp add: ok_def)
  have o': "ok \<lparr>status = 200, json_result = Inr JNull,
       body = Some ([], Some (JsError ''AbortError'' ''The user aborted a request.''))\<rparr>"
    by (simp add: ok_def)
  have v: "snd (read_loop example_parse True initial_state [''event: step\<newline>data: {}\<newline>''])
             = [OnStep (JObj [])]"
    by (simp add: initial_state_def on_chunk_def pop_def NL_def process_line_def startsWith_def
        trim_def js_whitespace_def dispatch_def example_parse_def)
  from local_abort_one_aborted [OF o, of "[''event: step\<newline>data: {}\<newline>'']"
      "''The user aborted a request.''" example_parse example_toMessage
      "''The user aborted a request.''"]
    local_abort_one_aborted [OF o', of "[]" "''The user aborted a request.''"
      example_parse example_toMessage "''The user aborted a request.''"] o v
  show ?thesis by simp
qed

text \<open>
  An abort while \<^verbatim>\<open>response.json()\<close> reads the body of a response that is not \<^verbatim>\<open>ok\<close>: the
  empty \<^verbatim>\<open>catch\<close> swallows it, and the session reports an error with the default message.
\<close>

lemma abort_during_error_body:
  "\<not> ok r \<Longrightarrow> json_result r = Inl (JsError ''AbortError'' m) \<Longrightarrow>
   sendMessageStream parse tm ab (Resolved r)
     = [OnError (error_event (''HTTP error! status: '' @ show_nat (status r)))]"
  by (simp add: sendMessageStream_def on_response_def on_catch_def error_detail_def)

text \<open>
  C7 as stated fails: cancelled before any frame, a session started without \<^verbatim>\<open>onAborted\<close>
  invokes nothing, not one aborted event.
\<close>

theorem local_abort_counterexample:
  "sendMessageStream example_parse example_toMessage False
     (Rejected (JsError ''AbortError'' ''The user aborted a request.'')) = []"
  by (simp add: sendMessageStream_def on_catch_def)

section \<open>Terminal events\<close>

lemma session_decomposition:
  "\<exists>fin. sendMessageStream parse tm ab outcome = frame_callbacks parse ab outcome @ fin
         \<and> length fin \<le> 1 \<and> (ends_normally outcome \<longrightarrow> fin = [])"
proof (cases outcome)
  case (Rejected e)
  then show ?thesis
    by (simp add: sendMessageStream_def frame_callbacks_def ends_normally_def on_catch_def)
next
  case (Resolved r)
  then show ?thesis
    by (auto simp: sendMessageStream_def frame_callbacks_def ends_normally_def on_catch_def
        on_response_def split: option.splits simp del: read_loop.simps)
qed

lemma terminal_only_last_snoc:
  "list_all (\<lambda>c. \<not> is_terminal c) fs \<Longrightarrow> length fin \<le> 1 \<Longrightarrow> terminal_only_last (fs @ fin)"
  by (cases fin) (auto simp: terminal_only_last_def butlast_append list_all_iff dest: in_set_butlastD)

lemma terminal_only_last_count:
  "terminal_only_last cs \<Longrightarrow> length (filter is_terminal cs) \<le> 1"
proof (cases cs rule: rev_cases)
  case Nil
  then show ?thesis by simp
next
  case (snoc ys y)
  assume "terminal_only_last cs"
  with snoc have "filter is_terminal ys = []"
    by (simp add: terminal_only_last_def list_all_iff filter_empty_conv)
  with snoc show ?thesis by simp
qed

text \<open>
  Claim C1, as amended. The controller keeps no record of having dispatched a terminal
  event. A session invokes at most one terminal callback, and nothing after it, when its
  frames allow it: when no frame of the stream invokes a terminal callback, or when the
  only terminal callback of the frames is their last and the reader then reports
  \<^verbatim>\<open>done\<close>.
\<close>

theorem one_terminal_event_last:
  assumes "list_all (\<lambda>c. \<not> is_terminal c) (frame_callbacks parse ab outcome)
           \<or> (ends_normally outcome \<and> terminal_only_last (frame_callbacks parse ab outcome))"
  shows "terminal_only_last (sendMessageStream parse tm ab outcome)
         \<and> length (filter is_terminal (sendMessageStream parse tm ab outcome)) \<le> 1"
proof -
  obtain fin where d: "sendMessageStream parse tm ab outcome = frame_callbacks parse ab outcome @ fin"
    and l: "length fin \<le> 1" and e: "ends_normally outcome \<longrightarrow> fin = []"
    using session_decomposition [of parse tm ab outcome] by blast
  have "terminal_only_last (sendMessageStream parse tm ab outcome)"
    using assms
  proof
    assume "list_all (\<lambda>c. \<not> is_terminal c) (frame_callbacks parse ab outcome)"
    then show ?thesis unfolding d using l by (rule terminal_only_last_snoc)
  next
    assume "ends_normally outcome \<and> terminal_only_last (frame_callbacks parse ab outcome)"
    with e show ?thesis unfolding d by simp
  qed
  then show ?thesis using terminal_only_last_count by blast
qed

text \<open>
  The hypotheses of C1 at a step frame followed by a done frame and the end of the
  stream.
\<close>

theorem one_terminal_event_last_witness:
  "(ends_normally (Resolved \<lparr>status = 200, json_result = Inr JNull,
        body = Some ([''event: step\<newline>data: {}\<newline>event: done\<newline>data: {}\<newline>''], None)\<rparr>)
    \<and> terminal_only_last (frame_callbacks example_parse True
        (Resolved \<lparr>status = 200, json_result = Inr JNull,
        body = Some ([''event: step\<newline>data: {}\<newline>event: done\<newline>data: {}\<newline>''], None)\<rparr>)))
   \<and> sendMessageStream example_parse example_toMessage True
        (Resolved \<lparr>status = 200, json_result = Inr JNull,
        body = Some ([''event: step\<newline>data: {}\<newline>event: done\<newline>data: {}\<newline>''], None)\<rparr>)
       = [OnStep (JObj []), OnDone (JObj [])]
   \<and> terminal_only_last (sendMessageStream example_parse example_toMessage True
        (Resolved \<lparr>status = 200, json_result = Inr JNull,
        body = Some ([''event: step\<newline>data: {}\<newline>event: done\<newline>data: {}\<newline>''], None)\<rparr>))
   \<and> length (filter is_terminal (sendMessageStream example_parse example_toMessage True
        (Resolved \<lparr>status = 200, json_result = Inr JNull,
        body = Some ([''event: step\<newline>data: {}\<newline>event: done\<newline>data: {}\<newline>''], None)\<rparr>))) \<le> 1"
  (is "(?E \<and> ?T) \<and> ?V \<and> ?C1 \<and> ?C2")
proof -
  have h: "?E \<and> ?T"
    by (simp add: ends_normally_def frame_callbacks_def terminal_only_last_def ok_def
        initial_state_def on_chunk_def pop_def NL_def process_line_def startsWith_def trim_def js_whitespace_def
        dispatch_def example_parse_def)
  have v: ?V
    by (simp add: sendMessageStream_def on_response_def ok_def initial_state_def
        on_chunk_def pop_def NL_def process_line_def startsWith_def trim_def js_whitespace_def
        dispatch_def example_parse_def)
  from one_terminal_event_last [where tm = example_toMessage, OF disjI2, OF h] h v
  show ?thesis by blast
qed

text \<open>
  C1 as stated fails: after a done frame, a second \<^verbatim>\<open>data:\<close> line invokes \<^verbatim>\<open>onDone\<close> again,
  a step frame still invokes \<^verbatim>\<open>onStep\<close>, and a cancellation then invokes \<^verbatim>\<open>onAborted\<close>:
  three terminal events, with another event between them.
\<close>

theorem one_terminal_event_counterexample:
  "sendMessageStream example_parse example_toMessage True
     (Resolved \<lparr>status = 200, json_result = Inr JNull,
        body = Some ([''event: done\<newline>data: {}\<newline>'', ''data: {}\<newline>event: step\<newline>data: {}\<newline>''],
                     Some (JsError ''AbortError'' ''The user aborted a request.''))\<rparr>)
     = [OnDone (JObj []), OnDone (JObj []), OnStep (JObj []), OnAborted aborted_by_user]"
  by (simp add: sendMessageStream_def on_response_def ok_def initial_state_def on_catch_def
      on_chunk_def pop_def NL_def process_line_def startsWith_def trim_def js_whitespace_def
      dispatch_def example_parse_def)

section \<open>Responses that are not \<^verbatim>\<open>ok\<close>\<close>

text \<open>
  Claim C6, as amended. A response whose status is outside 200 to 299 invokes \<^verbatim>\<open>onError\<close>
  once and nothing else. The message is the \<^verbatim>\<open>detail\<close> field when the body parsed as a
  JSON object and \<^verbatim>\<open>detail\<close> is a string that is not empty; it is
  \<^verbatim>\<open>HTTP error! status: <code>\<close> when the body did not parse, has no \<^verbatim>\<open>detail\<close>, or has a
  falsy one (the empty string, \<^verbatim>\<open>null\<close>, \<^verbatim>\<open>false\<close>, zero); any other \<^verbatim>\<open>detail\<close> is
  converted to a string.
\<close>

theorem non_ok_single_error:
  assumes "\<not> ok r"
  shows "sendMessageStream parse tm ab (Resolved r)
           = [OnError (JObj [(''type'', JStr ''error''), (''role'', JStr ''assistant''),
                (''message'', JStr
                   (case detail_of r of
                      None \<Rightarrow> ''HTTP error! status: '' @ show_nat (status r)
                    | Some (JStr s) \<Rightarrow>
                        if s = '''' then ''HTTP error! status: '' @ show_nat (status r) else s
                    | Some d \<Rightarrow>
                        if truthy d then tm d
                        else ''HTTP error! status: '' @ show_nat (status r)))])]"
proof -
  have "error_detail tm r =
          (case detail_of r of
             None \<Rightarrow> ''HTTP error! status: '' @ show_nat (status r)
           | Some (JStr s) \<Rightarrow>
               if s = '''' then ''HTTP error! status: '' @ show_nat (status r) else s
           | Some d \<Rightarrow>
               if truthy d then tm d
               else ''HTTP error! status: '' @ show_nat (status r))"
    by (simp add: error_detail_def detail_of_def Let_def split: sum.splits json.splits option.splits)
  with assms show ?thesis
    by (simp add: sendMessageStream_def on_response_def on_catch_def error_event_def)
qed

text \<open>
  The hypothesis of C6 at status 500 with the body \<^verbatim>\<open>{"detail":"agent busy"}\<close>.
\<close>

theorem non_ok_single_error_witness:
  "\<not> ok \<lparr>status = 500,
          json_result = Inr (JObj [(''detail'', JStr ''agent busy'')]), body = None\<rparr>
   \<and> sendMessageStream example_parse example_toMessage True
        (Resolved \<lparr>status = 500,
           json_result = Inr (JObj [(''detail'', JStr ''agent busy'')]), body = None\<rparr>)
      = [OnError (JObj [(''type'', JStr ''error''), (''role'', JStr ''assistant''),
                        (''message'', JStr ''agent busy'')])]"
  using non_ok_single_error [of "\<lparr>status = 500,
          json_result = Inr (JObj [(''detail'', JStr ''agent busy'')]), body = None\<rparr>"
          example_parse example_toMessage True]
  by (simp add: detail_of_def ok_def)

text \<open>
  C6 as stated fails: with the string \<^verbatim>\<open>detail\<close> empty the message is the default, not
  that string; with \<^verbatim>\<open>detail\<close> an object the message is its string conversion, not the
  default.
\<close>

theorem non_ok_single_error_counterexample:
  "sendMessageStream example_parse example_toMessage True
     (Resolved \<lparr>status = 500,
        json_result = Inr (JObj [(''detail'', JStr '''')]), body = None\<rparr>)
     = [OnError (JObj [(''type'', JStr ''error''), (''role'', JStr ''assistant''),
                       (''message'', JStr ''HTTP error! status: 500'')])]
   \<and> sendMessageStream example_parse example_toMessage True
     (Resolved \<lparr>status = 500,
        json_result = Inr (JObj [(''detail'', JObj [])]), body = None\<rparr>)
     = [OnError (JObj [(''type'', JStr ''error''), (''role'', JStr ''assistant''),
                       (''message'', JStr ''[object Object]'')])]"
proof -
  have "show_nat 500 = ''500''" by code_simp
  then show ?thesis
    by (simp add: sendMessageStream_def on_response_def on_catch_def error_event_def
        error_detail_def example_toMessage_def ok_def)
qed


section \<open>The coalesced thinking text\<close>

lemma panel_run_Cons: "fst (panel_run st (x # xs)) = fst (panel_run (panel_step st x) xs)"
  by (simp add: Let_def split: prod.splits)

lemma panel_run_append:
  "fst (panel_run st (xs @ ys)) = fst (panel_run (fst (panel_run st xs)) ys)"
proof (induction xs arbitrary: st)
  case Nil
  show ?case by simp
next
  case (Cons x xs)
  show ?case by (simp only: append_Cons panel_run_Cons Cons.IH)
qed

lemma panel_run_snoc: "fst (panel_run st (xs @ [x])) = panel_step (fst (panel_run st xs)) x"
  by (simp only: panel_run_append panel_run_Cons) simp

lemma run_update_variables:
  "currentThinkingText (run_update st u) = currentThinkingText st"
  "thinkingList (run_update st u) = thinkingList st"
  "actionsList (run_update st u) = actionsList st"
  "thinkingChunksBuffer (run_update st u) = thinkingChunksBuffer st"
  "updateTimeoutId (run_update st u) = updateTimeoutId st"
  "pendingTimers (run_update st u) = pendingTimers st"
  by (cases u; simp)+

lemma foldl_run_update_variables:
  "currentThinkingText (foldl run_update st us) = currentThinkingText st"
  "thinkingList (foldl run_update st us) = thinkingList st"
  "actionsList (foldl run_update st us) = actionsList st"
  "thinkingChunksBuffer (foldl run_update st us) = thinkingChunksBuffer st"
  "updateTimeoutId (foldl run_update st us) = updateTimeoutId st"
  "pendingTimers (foldl run_update st us) = pendingTimers st"
  by (induction us arbitrary: st; simp add: run_update_variables)+

lemma render_variables:
  "currentThinkingText (render st) = currentThinkingText st"
  "thinkingList (render st) = thinkingList st"
  "actionsList (render st) = actionsList st"
  "thinkingChunksBuffer (render st) = thinkingChunksBuffer st"
  "updateTimeoutId (render st) = updateTimeoutId st"
  "pendingTimers (render st) = pendingTimers st"
  by (simp_all add: render_def foldl_run_update_variables)

lemma render_last_update:
  "queue st = us @ [u] \<Longrightarrow>
   shownMessage (render st) = shownMessage (run_update (foldl run_update st us) u)"
  by (simp add: render_def)

lemma flush_variables:
  "thinkingChunksBuffer (flushThinkingUpdate st) = []"
  "currentThinkingText (flushThinkingUpdate st)
     = currentThinkingText st @ concat (thinkingChunksBuffer st)"
  "updateTimeoutId (flushThinkingUpdate st) = None"
  "pendingTimers (flushThinkingUpdate st) = pendingTimers st"
  "thinkingList (flushThinkingUpdate st) = thinkingList st"
  "actionsList (flushThinkingUpdate st) = actionsList st"
  "queue (flushThinkingUpdate st)
     = queue st @ (if thinkingChunksBuffer st \<noteq> [] then [ShowCurrentThinking] else [])"
  by (simp_all add: flushThinkingUpdate_def enqueue_def Let_def)

lemma timer_inv_step: "timer_inv st \<Longrightarrow> timer_inv (panel_step st x)"
proof (cases x)
  case TimeoutExpired
  assume "timer_inv st"
  with TimeoutExpired show ?thesis
    by (auto simp: timer_inv_def timeoutExpires_def flush_variables split: list.splits)
next
  case Render
  assume "timer_inv st"
  with Render show ?thesis by (simp add: timer_inv_def render_variables)
next
  case (Received e)
  assume i: "timer_inv st"
  show ?thesis
  proof (cases e)
    case (ThinkingChunkEvent c)
    with Received i show ?thesis
      by (auto simp: timer_inv_def onThinkingChunk_def setTimeout_def Let_def)
  next
    case (StepEvent n th a s f)
    with Received i show ?thesis
      by (auto simp: timer_inv_def onStep_def clearTimeout_def enqueue_def flush_variables Let_def
          split: option.splits)
  next
    case (DoneEvent m n s)
    with Received i show ?thesis
      by (auto simp: timer_inv_def onDone_def clearPending_def clearTimeout_def enqueue_def
          Let_def split: option.splits)
  next
    case (ErrorEvent m)
    with Received i show ?thesis
      by (auto simp: timer_inv_def onError_def clearPending_def clearTimeout_def enqueue_def
          Let_def split: option.splits)
  next
    case (AbortedEvent m)
    with Received i show ?thesis
      by (auto simp: timer_inv_def onAborted_def clearPending_def clearTimeout_def enqueue_def
          Let_def split: option.splits)
  qed
qed

lemma timer_inv_reachable: "timer_inv (fst (panel_run initial_panel xs))"
proof (induction xs rule: rev_induct)
  case Nil
  show ?case by (simp add: timer_inv_def initial_panel_def)
next
  case (snoc x xs)
  then show ?case by (simp only: panel_run_snoc timer_inv_step)
qed

lemma received_text_append: "received_text (xs @ ys) = received_text xs @ received_text ys"
  by (induction xs rule: received_text.induct) auto

lemma since_last_step_snoc:
  "since_last_step (xs @ [x]) = (if is_step x then [] else since_last_step xs @ [x])"
  by (simp add: since_last_step_def)

lemma step_text_other:
  "\<not> is_step x \<Longrightarrow>
   currentThinkingText (panel_step st x) @ concat (thinkingChunksBuffer (panel_step st x))
     = currentThinkingText st @ concat (thinkingChunksBuffer st) @ received_text [x]"
proof (cases x)
  case TimeoutExpired
  then show ?thesis
    by (auto simp: timeoutExpires_def flush_variables split: list.splits)
next
  case Render
  then show ?thesis by (simp add: render_variables)
next
  case (Received e)
  assume n: "\<not> is_step x"
  show ?thesis
  proof (cases e)
    case (ThinkingChunkEvent c)
    with Received show ?thesis
      by (auto simp: onThinkingChunk_def setTimeout_def Let_def)
  next
    case (StepEvent n' th a s f)
    with Received n show ?thesis by simp
  next
    case (DoneEvent m n' s)
    with Received show ?thesis
      by (auto simp: onDone_def clearPending_def clearTimeout_def enqueue_def Let_def
          split: option.splits)
  next
    case (ErrorEvent m)
    with Received show ?thesis
      by (auto simp: onError_def clearPending_def clearTimeout_def enqueue_def Let_def
          split: option.splits)
  next
    case (AbortedEvent m)
    with Received show ?thesis
      by (auto simp: onAborted_def clearPending_def clearTimeout_def enqueue_def Let_def
          split: option.splits)
  qed
qed

lemma step_text_step:
  "timer_inv st \<Longrightarrow>
   currentThinkingText (onStep st n th a) = [] \<and> thinkingChunksBuffer (onStep st n th a) = []"
  by (auto simp: timer_inv_def onStep_def clearTimeout_def enqueue_def flush_variables Let_def
      split: option.splits)

lemma epoch_text:
  "currentThinkingText (fst (panel_run initial_panel xs))
     @ concat (thinkingChunksBuffer (fst (panel_run initial_panel xs)))
   = received_text (since_last_step xs)"
proof (induction xs rule: rev_induct)
  case Nil
  show ?case by (simp add: initial_panel_def since_last_step_def)
next
  case (snoc x xs)
  show ?case
  proof (cases "is_step x")
    case True
    then obtain n th a s f where x: "x = Received (StepEvent n th a s f)"
      by (cases x rule: is_step.cases) auto
    show ?thesis
      using step_text_step [OF timer_inv_reachable [of xs], of n th a] True
      by (simp add: panel_run_snoc since_last_step_snoc x)
  next
    case False
    then show ?thesis
      using step_text_other [OF False, of "fst (panel_run initial_panel xs)"] snoc.IH
      by (simp add: panel_run_snoc since_last_step_snoc received_text_append)
  qed
qed

lemma expiry_flushes:
  assumes "timer_inv st" and "pendingTimers st \<noteq> []"
  shows "thinkingChunksBuffer (panel_step st TimeoutExpired) = []"
    and "currentThinkingText (panel_step st TimeoutExpired)
           = currentThinkingText st @ concat (thinkingChunksBuffer st)"
    and "queue (panel_step st TimeoutExpired) = queue st @ [ShowCurrentThinking]"
    and "pendingTimers (panel_step st TimeoutExpired) = []"
  using assms by (auto simp: timer_inv_def timeoutExpires_def flush_variables)

lemma render_after_flush:
  "queue st = us @ [ShowCurrentThinking] \<Longrightarrow>
   currentThinking (shownMessage (panel_step st Render)) = Some (currentThinkingText st)"
  by (simp add: render_last_update foldl_run_update_variables)

lemma step_takes_text:
  assumes "timer_inv st"
  shows "thinkingList (panel_step st (Received (StepEvent n th a s f)))
           = thinkingList st
             @ (if th \<noteq> [] then [th]
                else if currentThinkingText st @ concat (thinkingChunksBuffer st) \<noteq> []
                then [currentThinkingText st @ concat (thinkingChunksBuffer st)] else [])"
  using assms
  by (auto simp: timer_inv_def onStep_def clearTimeout_def enqueue_def flush_variables Let_def
      split: option.splits)

lemma terminal_keeps_text:
  "thinkingChunksBuffer (panel_step st (Received (DoneEvent m k b))) = thinkingChunksBuffer st"
  "currentThinkingText (panel_step st (Received (DoneEvent m k b))) = currentThinkingText st"
  "thinkingChunksBuffer (panel_step st (Received (ErrorEvent m))) = thinkingChunksBuffer st"
  "currentThinkingText (panel_step st (Received (ErrorEvent m))) = currentThinkingText st"
  "thinkingChunksBuffer (panel_step st (Received (AbortedEvent m))) = thinkingChunksBuffer st"
  "currentThinkingText (panel_step st (Received (AbortedEvent m))) = currentThinkingText st"
  by (simp_all add: onDone_def onError_def onAborted_def clearPending_def clearTimeout_def
      enqueue_def Let_def split: option.splits)

lemma session_text_step:
  assumes "timer_inv st" and "\<not> brings_thinking x"
  shows "concat (thinkingList (panel_step st x)) @ currentThinkingText (panel_step st x)
           @ concat (thinkingChunksBuffer (panel_step st x))
         = concat (thinkingList st) @ currentThinkingText st
           @ concat (thinkingChunksBuffer st) @ received_text [x]"
proof (cases "is_step x")
  case True
  then obtain n th a s f where x: "x = Received (StepEvent n th a s f)"
    by (cases x rule: is_step.cases) auto
  with assms(2) have th: "th = []" by simp
  show ?thesis
    using step_takes_text [OF assms(1), of n th a s f] step_text_step [OF assms(1), of n th a]
    by (simp add: x th)
next
  case False
  have "thinkingList (panel_step st x) = thinkingList st"
  proof (cases x)
    case TimeoutExpired
    then show ?thesis by (simp add: timeoutExpires_def flush_variables split: list.splits)
  next
    case Render
    then show ?thesis by (simp add: render_variables)
  next
    case (Received e)
    with False show ?thesis
      by (cases e)
         (simp_all add: onThinkingChunk_def setTimeout_def onDone_def onError_def onAborted_def
            clearPending_def clearTimeout_def enqueue_def Let_def split: option.splits)
  qed
  with step_text_other [OF False, of st] show ?thesis by simp
qed

lemma session_text:
  "list_all (\<lambda>x. \<not> brings_thinking x) xs \<Longrightarrow>
   concat (thinkingList (fst (panel_run initial_panel xs)))
     @ currentThinkingText (fst (panel_run initial_panel xs))
     @ concat (thinkingChunksBuffer (fst (panel_run initial_panel xs)))
   = received_text xs"
proof (induction xs rule: rev_induct)
  case Nil
  show ?case by (simp add: initial_panel_def)
next
  case (snoc x xs)
  then have n: "\<not> brings_thinking x" and r: "list_all (\<lambda>x. \<not> brings_thinking x) xs" by simp_all
  show ?case
    using session_text_step [OF timer_inv_reachable [of xs] n] snoc.IH [OF r]
    by (simp add: panel_run_snoc received_text_append)
qed

text \<open>
  Claim C2, as amended. In every state the panel reaches, whatever it has received and
  wherever timer expiries and renders fell:
  \<^item> the streamed text \<^verbatim>\<open>currentThinkingText\<close>, which is what a coalesced update shows and
    which starts afresh at every step event, followed by the fragments still in
    \<^verbatim>\<open>thinkingChunksBuffer\<close>, is the concatenation in arrival order of the raw chunks
    received since the last step event;
  \<^item> an expiry that finds the timer pending leaves nothing buffered, hands React the
    coalesced update, and the next render shows exactly those chunks;
  \<^item> a step event leaves nothing buffered and, when it brings no thinking of its own,
    takes exactly those chunks as the thinking of the step;
  \<^item> over a session whose step events bring no thinking of their own, the thinking kept
    per step, the streamed text and the buffered fragments, in this order, are all the
    raw chunks received, in arrival order;
  \<^item> a done, error or aborted event moves nothing: what is buffered then stays buffered.
\<close>

theorem coalesced_text_complete:
  assumes "st = fst (panel_run initial_panel xs)"
    and "chunks = received_text (since_last_step xs)"
  shows "currentThinkingText st @ concat (thinkingChunksBuffer st) = chunks
         \<and> (pendingTimers st \<noteq> [] \<longrightarrow>
              thinkingChunksBuffer (panel_step st TimeoutExpired) = []
              \<and> currentThinkingText (panel_step st TimeoutExpired) = chunks
              \<and> queue (panel_step st TimeoutExpired) = queue st @ [ShowCurrentThinking]
              \<and> currentThinking (shownMessage (panel_step (panel_step st TimeoutExpired) Render))
                  = Some chunks)
         \<and> thinkingChunksBuffer (panel_step st (Received (StepEvent n th a s f))) = []
         \<and> thinkingList (panel_step st (Received (StepEvent n [] a s f)))
             = thinkingList st @ (if chunks \<noteq> [] then [chunks] else [])
         \<and> (list_all (\<lambda>x. \<not> brings_thinking x) xs \<longrightarrow>
              concat (thinkingList st) @ currentThinkingText st
                @ concat (thinkingChunksBuffer st) = received_text xs)
         \<and> thinkingChunksBuffer (panel_step st (Received (DoneEvent m k b)))
             = thinkingChunksBuffer st
         \<and> thinkingChunksBuffer (panel_step st (Received (ErrorEvent m)))
             = thinkingChunksBuffer st
         \<and> thinkingChunksBuffer (panel_step st (Received (AbortedEvent m)))
             = thinkingChunksBuffer st
         \<and> currentThinkingText (panel_step st (Received (DoneEvent m k b)))
             = currentThinkingText st
         \<and> currentThinkingText (panel_step st (Received (ErrorEvent m)))
             = currentThinkingText st
         \<and> currentThinkingText (panel_step st (Received (AbortedEvent m)))
             = currentThinkingText st"
proof -
  have inv: "timer_inv st" unfolding assms(1) by (rule timer_inv_reachable)
  have a: "currentThinkingText st @ concat (thinkingChunksBuffer st) = chunks"
    unfolding assms by (rule epoch_text)
  have b: "thinkingChunksBuffer (panel_step st TimeoutExpired) = []
           \<and> currentThinkingText (panel_step st TimeoutExpired) = chunks
           \<and> queue (panel_step st TimeoutExpired) = queue st @ [ShowCurrentThinking]
           \<and> currentThinking (shownMessage (panel_step (panel_step st TimeoutExpired) Render))
               = Some chunks"
    if p: "pendingTimers st \<noteq> []"
    using expiry_flushes [OF inv p] a
      render_after_flush [OF expiry_flushes(3) [OF inv p]]
    by simp
  have c: "thinkingChunksBuffer (panel_step st (Received (StepEvent n th a s f))) = []"
    using step_text_step [OF inv, of n th a] by simp
  have d: "thinkingList (panel_step st (Received (StepEvent n [] a s f)))
             = thinkingList st @ (if chunks \<noteq> [] then [chunks] else [])"
    using step_takes_text [OF inv, of n "[]" a s f] a by simp
  have e: "concat (thinkingList st) @ currentThinkingText st
             @ concat (thinkingChunksBuffer st) = received_text xs"
    if "list_all (\<lambda>x. \<not> brings_thinking x) xs"
    unfolding assms(1) using that by (rule session_text)
  from a b c d e terminal_keeps_text [of st] show ?thesis by blast
qed

text \<open>
  The hypotheses of C2 after a chunk \<^verbatim>\<open>A\<close>, a step without thinking of its own, a render
  and the chunks \<^verbatim>\<open>He\<close> and \<^verbatim>\<open>llo\<close>: the timer is pending, an expiry and a render show
  \<^verbatim>\<open>Hello\<close>, a second such step keeps \<^verbatim>\<open>A\<close> and \<^verbatim>\<open>Hello\<close>, and the whole session has received
  \<^verbatim>\<open>AHello\<close>.
\<close>

theorem coalesced_text_complete_witness:
  "pendingTimers (fst (panel_run initial_panel
      [Received (ThinkingChunkEvent ''A''), Received (StepEvent 1 [] (JObj []) True False),
       Render, Received (ThinkingChunkEvent ''He''), Received (ThinkingChunkEvent ''llo'')])) \<noteq> []
   \<and> list_all (\<lambda>x. \<not> brings_thinking x)
      [Received (ThinkingChunkEvent ''A''), Received (StepEvent 1 [] (JObj []) True False),
       Render, Received (ThinkingChunkEvent ''He''), Received (ThinkingChunkEvent ''llo'')]
   \<and> received_text (since_last_step
      [Received (ThinkingChunkEvent ''A''), Received (StepEvent 1 [] (JObj []) True False),
       Render, Received (ThinkingChunkEvent ''He''), Received (ThinkingChunkEvent ''llo'')])
      = ''Hello''
   \<and> received_text
      [Received (ThinkingChunkEvent ''A''), Received (StepEvent 1 [] (JObj []) True False),
       Render, Received (ThinkingChunkEvent ''He''), Received (ThinkingChunkEvent ''llo'')]
      = ''AHello''
   \<and> currentThinking (shownMessage (panel_step (panel_step
        (fst (panel_run initial_panel
          [Received (ThinkingChunkEvent ''A''), Received (StepEvent 1 [] (JObj []) True False),
           Render, Received (ThinkingChunkEvent ''He''), Received (ThinkingChunkEvent ''llo'')]))
        TimeoutExpired) Render)) = Some ''Hello''
   \<and> thinkingList (panel_step
        (fst (panel_run initial_panel
          [Received (ThinkingChunkEvent ''A''), Received (StepEvent 1 [] (JObj []) True False),
           Render, Received (ThinkingChunkEvent ''He''), Received (ThinkingChunkEvent ''llo'')]))
        (Received (StepEvent 2 [] (JObj []) True False))) = [''A'', ''Hello'']
   \<and> concat (thinkingList (fst (panel_run initial_panel
          [Received (ThinkingChunkEvent ''A''), Received (StepEvent 1 [] (JObj []) True False),
           Render, Received (ThinkingChunkEvent ''He''), Received (ThinkingChunkEvent ''llo'')])))
       @ currentThinkingText (fst (panel_run initial_panel
          [Received (ThinkingChunkEvent ''A''), Received (StepEvent 1 [] (JObj []) True False),
           Render, Received (ThinkingChunkEvent ''He''), Received (ThinkingChunkEvent ''llo'')]))
       @ concat (thinkingChunksBuffer (fst (panel_run initial_panel
          [Received (ThinkingChunkEvent ''A''), Received (StepEvent 1 [] (JObj []) True False),
           Render, Received (ThinkingChunkEvent ''He''), Received (ThinkingChunkEvent ''llo'')])))
      = ''AHello''"
proof -
  define xs where "xs = [Received (ThinkingChunkEvent ''A''),
       Received (StepEvent 1 [] (JObj []) True False),
       Render, Received (ThinkingChunkEvent ''He''), Received (ThinkingChunkEvent ''llo'')]"
  define st where "st = fst (panel_run initial_panel xs)"
  have r: "received_text (since_last_step xs) = ''Hello''"
    by (simp add: xs_def since_last_step_def)
  have r': "received_text xs = ''AHello''"
    by (simp add: xs_def)
  have l: "list_all (\<lambda>x. \<not> brings_thinking x) xs"
    by (simp add: xs_def)
  have v: "st = \<lparr>thinkingList = [''A''], actionsList = [JObj []], currentThinkingText = [],
      thinkingChunksBuffer = [''He'', ''llo''], updateTimeoutId = Some 2, chatStreamRef = True,
      pendingTimers = [2], nextTimerId = 3, queue = [],
      shownMessage = \<lparr>content = [], thinking = [''A''], actions = [JObj []], steps = Some 1,
        success = None, isStreaming = True, currentThinking = Some []\<rparr>,
      loading = True, error = None\<rparr>"
    by (simp add: st_def xs_def initial_panel_def agentMessage_def onStep_def clearTimeout_def
        flushThinkingUpdate_def enqueue_def render_def onThinkingChunk_def setTimeout_def Let_def)
  have p: "pendingTimers st \<noteq> []" by (simp add: v)
  have t: "thinkingList st = [''A'']" by (simp add: v)
  from coalesced_text_complete [OF st_def refl, of 2 "[]" "JObj []" True False] p l r r' t
  show ?thesis unfolding st_def [symmetric] xs_def [symmetric] by simp
qed

text \<open>
  C2 as stated fails: the chunks \<^verbatim>\<open>He\<close> and \<^verbatim>\<open>llo\<close> are still buffered when a done event
  arrives, and no render, before or after it, shows them; the expiry after it finds no
  timer. The two fragments stay in the buffer.
\<close>

theorem coalesced_text_counterexample:
  "received_text
     [Received (ThinkingChunkEvent ''He''), Render, Received (ThinkingChunkEvent ''llo''), Render,
      Received (DoneEvent ''ok'' 1 True), Render, TimeoutExpired, Render] = ''Hello''
   \<and> snd (panel_run initial_panel
     [Received (ThinkingChunkEvent ''He''), Render, Received (ThinkingChunkEvent ''llo''), Render,
      Received (DoneEvent ''ok'' 1 True), Render, TimeoutExpired, Render])
     = [\<lparr>content = [], thinking = [], actions = [], steps = None, success = None,
          isStreaming = True, currentThinking = Some []\<rparr>,
        \<lparr>content = [], thinking = [], actions = [], steps = None, success = None,
          isStreaming = True, currentThinking = Some []\<rparr>,
        \<lparr>content = ''ok'', thinking = [], actions = [], steps = Some 1, success = Some True,
          isStreaming = False, currentThinking = None\<rparr>,
        \<lparr>content = ''ok'', thinking = [], actions = [], steps = Some 1, success = Some True,
          isStreaming = False, currentThinking = None\<rparr>]
   \<and> thinkingChunksBuffer (fst (panel_run initial_panel
     [Received (ThinkingChunkEvent ''He''), Render, Received (ThinkingChunkEvent ''llo''), Render,
      Received (DoneEvent ''ok'' 1 True), Render, TimeoutExpired, Render])) = [''He'', ''llo'']"
  by (simp add: initial_panel_def agentMessage_def onThinkingChunk_def setTimeout_def onDone_def
      clearPending_def clearTimeout_def timeoutExpires_def enqueue_def render_def Let_def)

section \<open>Flushing before a step\<close>

lemma render_after_step:
  "queue st = us @ [ShowStep n] \<Longrightarrow>
   currentThinking (shownMessage (panel_step st Render)) = Some []
   \<and> thinking (shownMessage (panel_step st Render)) = thinkingList st
   \<and> actions (shownMessage (panel_step st Render)) = actionsList st"
  by (simp add: render_last_update foldl_run_update_variables)

lemma render_after_terminal:
  "queue st = us @ [ReplaceMessage msg, SetLoading False] \<Longrightarrow>
   shownMessage (panel_step st Render) = msg"
  "queue st = us @ [ReplaceMessage msg, SetLoading False, SetError e] \<Longrightarrow>
   shownMessage (panel_step st Render) = msg"
  by (simp_all add: render_def)

text \<open>
  Claim C3, as amended. In every state the panel reaches in which the flush timer is
  pending, a step event cancels the timer and flushes before it is processed: the
  buffered fragments join the streamed text in order, the update of the flush is handed
  to React ahead of the update of the step, and the step takes that text as its
  thinking when it brings none of its own. The update of the flush reads the streamed
  text only when React runs it, after the handler has reset it, so the render after
  the step shows the step with an empty \<^verbatim>\<open>currentThinking\<close> and no aggregated text apart
  from it. A done, error or aborted event in such a state cancels the timer and flushes
  nothing: the buffered fragments stay where they are, and the render after it shows
  the final message with \<^verbatim>\<open>currentThinking\<close> undefined.
\<close>

theorem step_flushes_first:
  assumes "st = fst (panel_run initial_panel xs)" and "pendingTimers st \<noteq> []"
  shows "queue (panel_step st (Received (StepEvent n th a s f)))
           = queue st @ [ShowCurrentThinking, ShowStep n]
         \<and> thinkingChunksBuffer (panel_step st (Received (StepEvent n th a s f))) = []
         \<and> pendingTimers (panel_step st (Received (StepEvent n th a s f))) = []
         \<and> thinkingList (panel_step st (Received (StepEvent n th a s f)))
             = thinkingList st
               @ (if th \<noteq> [] then [th]
                  else if currentThinkingText st @ concat (thinkingChunksBuffer st) \<noteq> []
                  then [currentThinkingText st @ concat (thinkingChunksBuffer st)] else [])
         \<and> currentThinkingText (panel_step st (Received (StepEvent n th a s f))) = []
         \<and> currentThinking (shownMessage
              (panel_step (panel_step st (Received (StepEvent n th a s f))) Render)) = Some []
         \<and> thinking (shownMessage
              (panel_step (panel_step st (Received (StepEvent n th a s f))) Render))
             = thinkingList (panel_step st (Received (StepEvent n th a s f)))
         \<and> queue (panel_step st (Received (DoneEvent m k b)))
             = queue st
               @ [ReplaceMessage
                    \<lparr>content = m, thinking = thinkingList st, actions = actionsList st,
                     steps = Some k, success = Some b, isStreaming = False,
                     currentThinking = None\<rparr>,
                  SetLoading False]
         \<and> shownMessage (panel_step (panel_step st (Received (DoneEvent m k b))) Render)
             = \<lparr>content = m, thinking = thinkingList st, actions = actionsList st,
                steps = Some k, success = Some b, isStreaming = False,
                currentThinking = None\<rparr>
         \<and> currentThinking (shownMessage
              (panel_step (panel_step st (Received (ErrorEvent m))) Render)) = None
         \<and> currentThinking (shownMessage
              (panel_step (panel_step st (Received (AbortedEvent m))) Render)) = None
         \<and> thinkingChunksBuffer (panel_step st (Received (DoneEvent m k b)))
             = thinkingChunksBuffer st
         \<and> thinkingChunksBuffer (panel_step st (Received (ErrorEvent m)))
             = thinkingChunksBuffer st
         \<and> thinkingChunksBuffer (panel_step st (Received (AbortedEvent m)))
             = thinkingChunksBuffer st
         \<and> pendingTimers (panel_step st (Received (DoneEvent m k b))) = []
         \<and> pendingTimers (panel_step st (Received (ErrorEvent m))) = []
         \<and> pendingTimers (panel_step st (Received (AbortedEvent m))) = []"
proof -
  have inv: "timer_inv st" unfolding assms(1) by (rule timer_inv_reachable)
  with assms(2) obtain i where p: "pendingTimers st = [i]" and u: "updateTimeoutId st = Some i"
    and nb: "thinkingChunksBuffer st \<noteq> []"
    by (auto simp: timer_inv_def)
  let ?s = "panel_step st (Received (StepEvent n th a s f))"
  let ?d = "panel_step st (Received (DoneEvent m k b))"
  let ?e = "panel_step st (Received (ErrorEvent m))"
  let ?a = "panel_step st (Received (AbortedEvent m))"
  have q: "queue ?s = queue st @ [ShowCurrentThinking, ShowStep n]"
    using u nb by (simp add: onStep_def clearTimeout_def enqueue_def flush_variables Let_def)
  have s1: "thinkingChunksBuffer ?s = []" "currentThinkingText ?s = []"
    using step_text_step [OF inv, of n th a] by simp_all
  have s2: "pendingTimers ?s = []"
    using u p by (simp add: onStep_def clearTimeout_def enqueue_def flush_variables Let_def)
  have s3: "thinkingList ?s
             = thinkingList st
               @ (if th \<noteq> [] then [th]
                  else if currentThinkingText st @ concat (thinkingChunksBuffer st) \<noteq> []
                  then [currentThinkingText st @ concat (thinkingChunksBuffer st)] else [])"
    by (rule step_takes_text [OF inv])
  have q': "queue ?s = (queue st @ [ShowCurrentThinking]) @ [ShowStep n]" using q by simp
  have s4: "currentThinking (shownMessage (panel_step ?s Render)) = Some []"
    "thinking (shownMessage (panel_step ?s Render)) = thinkingList ?s"
    using render_after_step [OF q'] by simp_all
  have dq: "queue ?d
             = queue st
               @ [ReplaceMessage
                    \<lparr>content = m, thinking = thinkingList st, actions = actionsList st,
                     steps = Some k, success = Some b, isStreaming = False,
                     currentThinking = None\<rparr>,
                  SetLoading False]"
    using u by (simp add: onDone_def clearPending_def clearTimeout_def enqueue_def
        agentMessage_def Let_def)
  have d1: "shownMessage (panel_step ?d Render)
             = \<lparr>content = m, thinking = thinkingList st, actions = actionsList st,
                steps = Some k, success = Some b, isStreaming = False,
                currentThinking = None\<rparr>"
    by (rule render_after_terminal(1) [OF dq])
  have e1: "currentThinking (shownMessage (panel_step ?e Render)) = None"
    using u by (simp add: onError_def clearPending_def clearTimeout_def enqueue_def
        agentMessage_def render_def Let_def)
  have a1: "currentThinking (shownMessage (panel_step ?a Render)) = None"
    using u by (simp add: onAborted_def clearPending_def clearTimeout_def enqueue_def
        agentMessage_def render_def Let_def)
  have t: "pendingTimers ?d = []" "pendingTimers ?e = []" "pendingTimers ?a = []"
    using u p by (simp_all add: onDone_def onError_def onAborted_def clearPending_def
        clearTimeout_def enqueue_def Let_def)
  from q s1 s2 s3 s4 dq d1 e1 a1 t terminal_keeps_text
  show ?thesis by simp
qed

text \<open>
  The hypotheses of C3 after the chunks \<^verbatim>\<open>He\<close> and \<^verbatim>\<open>llo\<close>: a step without thinking of its
  own queues the two updates and keeps \<^verbatim>\<open>Hello\<close> as its thinking, which the next render
  shows; a done event leaves both fragments buffered.
\<close>

theorem step_flushes_first_witness:
  "pendingTimers (fst (panel_run initial_panel
      [Received (ThinkingChunkEvent ''He''), Received (ThinkingChunkEvent ''llo'')])) \<noteq> []
   \<and> panel_step
        (fst (panel_run initial_panel
           [Received (ThinkingChunkEvent ''He''), Received (ThinkingChunkEvent ''llo'')]))
        (Received (StepEvent 1 [] (JObj []) True False))
      = \<lparr>thinkingList = [''Hello''], actionsList = [JObj []], currentThinkingText = [],
         thinkingChunksBuffer = [], updateTimeoutId = None, chatStreamRef = True,
         pendingTimers = [], nextTimerId = 2,
         queue = [ShowCurrentThinking, ShowStep 1], shownMessage = agentMessage,
         loading = True, error = None\<rparr>
   \<and> shownMessage (panel_step (panel_step
        (fst (panel_run initial_panel
           [Received (ThinkingChunkEvent ''He''), Received (ThinkingChunkEvent ''llo'')]))
        (Received (StepEvent 1 [] (JObj []) True False))) Render)
      = \<lparr>content = [], thinking = [''Hello''], actions = [JObj []], steps = Some 1,
         success = None, isStreaming = True, currentThinking = Some []\<rparr>
   \<and> thinkingChunksBuffer (panel_step
        (fst (panel_run initial_panel
           [Received (ThinkingChunkEvent ''He''), Received (ThinkingChunkEvent ''llo'')]))
        (Received (DoneEvent ''ok'' 1 True))) = [''He'', ''llo'']"
proof -
  define st where "st = fst (panel_run initial_panel
      [Received (ThinkingChunkEvent ''He''), Received (ThinkingChunkEvent ''llo'')])"
  have v: "st = \<lparr>thinkingList = [], actionsList = [], currentThinkingText = [],
      thinkingChunksBuffer = [''He'', ''llo''], updateTimeoutId = Some 1, chatStreamRef = True,
      pendingTimers = [1], nextTimerId = 2, queue = [], shownMessage = agentMessage,
      loading = True, error = None\<rparr>"
    by (simp add: st_def initial_panel_def onThinkingChunk_def setTimeout_def Let_def)
  have p: "pendingTimers st \<noteq> []" by (simp add: v)
  have s: "panel_step st (Received (StepEvent 1 [] (JObj []) True False))
      = \<lparr>thinkingList = [''Hello''], actionsList = [JObj []], currentThinkingText = [],
         thinkingChunksBuffer = [], updateTimeoutId = None, chatStreamRef = True,
         pendingTimers = [], nextTimerId = 2,
         queue = [ShowCurrentThinking, ShowStep 1], shownMessage = agentMessage,
         loading = True, error = None\<rparr>"
    by (simp add: v onStep_def clearTimeout_def flushThinkingUpdate_def enqueue_def Let_def)
  have r: "shownMessage (panel_step (panel_step st
        (Received (StepEvent 1 [] (JObj []) True False))) Render)
      = \<lparr>content = [], thinking = [''Hello''], actions = [JObj []], steps = Some 1,
         success = None, isStreaming = True, currentThinking = Some []\<rparr>"
    by (simp only: s) (simp add: render_def agentMessage_def)
  from step_flushes_first [OF st_def p, of 1 "[]" "JObj []" True False "''ok''" 1 True] p s r
  show ?thesis unfolding st_def [symmetric] by (simp add: v)
qed

text \<open>
  C3 as stated fails at its own example: with a render after every occurrence, the
  chunks \<^verbatim>\<open>He\<close> and \<^verbatim>\<open>llo\<close> followed by a done event show the waiting message twice and
  then the final message, never \<^verbatim>\<open>Hello\<close>. Followed instead by a step that brings its own
  thinking, they show the step, and \<^verbatim>\<open>Hello\<close> as an update of its own never.
\<close>

theorem step_flushes_first_counterexample:
  "snd (panel_run initial_panel
      [Received (ThinkingChunkEvent ''He''), Render, Received (ThinkingChunkEvent ''llo''), Render,
       Received (DoneEvent ''ok'' 1 True), Render])
     = [\<lparr>content = [], thinking = [], actions = [], steps = None, success = None,
          isStreaming = True, currentThinking = Some []\<rparr>,
        \<lparr>content = [], thinking = [], actions = [], steps = None, success = None,
          isStreaming = True, currentThinking = Some []\<rparr>,
        \<lparr>content = ''ok'', thinking = [], actions = [], steps = Some 1, success = Some True,
          isStreaming = False, currentThinking = None\<rparr>]
   \<and> snd (panel_run initial_panel
      [Received (ThinkingChunkEvent ''He''), Render, Received (ThinkingChunkEvent ''llo''), Render,
       Received (StepEvent 1 ''plan'' (JObj []) True False), Render])
     = [\<lparr>content = [], thinking = [], actions = [], steps = None, success = None,
          isStreaming = True, currentThinking = Some []\<rparr>,
        \<lparr>content = [], thinking = [], actions = [], steps = None, success = None,
          isStreaming = True, currentThinking = Some []\<rparr>,
        \<lparr>content = [], thinking = [''plan''], actions = [JObj []], steps = Some 1,
          success = None, isStreaming = True, currentThinking = Some []\<rparr>]"
  by (simp add: initial_panel_def agentMessage_def onThinkingChunk_def setTimeout_def onDone_def
      onStep_def flushThinkingUpdate_def clearPending_def clearTimeout_def enqueue_def
      render_def Let_def)

end
